theory Spec2Isabelle
  imports Main "HOL-Library.AList" "HOL-Library.Sublist"
begin

section \<open>Text\<close>

text \<open>
  Report text is a \<open>string\<close>: a list of 8-bit characters, read as the UTF-8 bytes of
  the Python string. The character classes below are Python's on ASCII text:
  \<open>str.upper\<close> maps \<open>a..z\<close> to \<open>A..Z\<close>, the regular expression class \<open>\d\<close> is
  \<open>0..9\<close>, and \<open>\s\<close> and \<open>str.strip\<close> take the ten ASCII characters Python counts as
  white space. Characters beyond ASCII (the degree sign, the micro sign, accented
  letters) are kept as their bytes and are left alone by \<open>upper\<close>.
\<close>

type_synonym cell = "string option"
type_synonym row = "cell list"
type_synonym table = "row list"

definition is_digit :: "char \<Rightarrow> bool" where
  "is_digit c = (c \<in> set ''0123456789'')"

definition is_space :: "char \<Rightarrow> bool" where
  "is_space c = (c \<in> set [CHR '' '', CHR 0x09, CHR 0x0A, CHR 0x0B, CHR 0x0C, CHR 0x0D,
                            CHR 0x1C, CHR 0x1D, CHR 0x1E, CHR 0x1F])"

definition upper_char :: "char \<Rightarrow> char" where
  "upper_char c =
     (case map_of (zip ''abcdefghijklmnopqrstuvwxyz'' ''ABCDEFGHIJKLMNOPQRSTUVWXYZ'') c of
        Some u \<Rightarrow> u
      | None \<Rightarrow> c)"

definition upper :: "string \<Rightarrow> string" where
  "upper s = map upper_char s"

definition strip :: "string \<Rightarrow> string" where
  "strip s = rev (dropWhile is_space (rev (dropWhile is_space s)))"

text \<open>\<open>contains sub s\<close> is Python's \<open>sub in s\<close>.\<close>

fun contains :: "string \<Rightarrow> string \<Rightarrow> bool" where
  "contains sub [] = (sub = [])"
| "contains sub (c # cs) = (prefix sub (c # cs) \<or> contains sub cs)"

text \<open>\<open>replace_str old new s\<close> is \<open>s.replace(old, new)\<close> for a non-empty \<open>old\<close>:
  occurrences are replaced from the left and do not overlap.\<close>

function replace_str :: "string \<Rightarrow> string \<Rightarrow> string \<Rightarrow> string" where
  "replace_str old new [] = []"
| "replace_str old new (c # cs) =
     (if old \<noteq> [] \<and> prefix old (c # cs)
      then new @ replace_str old new (drop (length old) (c # cs))
      else c # replace_str old new cs)"
  by pat_completeness auto
termination
  by (relation "measure (\<lambda>(old, new, s). length s)") auto

text \<open>\<open>split_lines s\<close> is \<open>s.split("\n")\<close>; \<open>join_sp\<close> is \<open>" ".join\<close>.\<close>

fun split_acc :: "string \<Rightarrow> string \<Rightarrow> string list" where
  "split_acc cur [] = [cur]"
| "split_acc cur (c # cs) =
     (if c = CHR 0x0A then cur # split_acc [] cs else split_acc (cur @ [c]) cs)"

definition split_lines :: "string \<Rightarrow> string list" where
  "split_lines s = split_acc [] s"

fun join_sp :: "string list \<Rightarrow> string" where
  "join_sp [] = []"
| "join_sp [x] = x"
| "join_sp (x # y # ys) = x @ '' '' @ join_sp (y # ys)"

text \<open>A table cell is a string or \<open>None\<close>. \<open>cell_str\<close> is the source's
  \<open>str(cell) if cell else ""\<close>; a cell is truthy when it holds a non-empty string.\<close>

definition cell_true :: "cell \<Rightarrow> bool" where
  "cell_true c = (case c of None \<Rightarrow> False | Some s \<Rightarrow> s \<noteq> [])"

definition cell_str :: "cell \<Rightarrow> string" where
  "cell_str c = (case c of None \<Rightarrow> [] | Some s \<Rightarrow> s)"

definition row_text :: "row \<Rightarrow> string" where
  "row_text r = upper (join_sp (map cell_str r))"

definition degree_sign :: string where
  "degree_sign = [CHR 0xC2, CHR 0xB0]"

definition micro_sign :: string where
  "micro_sign = [CHR 0xC2, CHR 0xB5]"

text \<open>\<open>search_first m s\<close> is \<open>re.search\<close> for a pattern whose match at a given start is
  decided by \<open>m\<close>: the leftmost start wins.\<close>

fun search_first :: "(string \<Rightarrow> 'a option) \<Rightarrow> string \<Rightarrow> 'a option" where
  "search_first m [] = m []"
| "search_first m (c # cs) =
     (case m (c # cs) of Some g \<Rightarrow> Some g | None \<Rightarrow> search_first m cs)"

section \<open>Numbers\<close>

text \<open>
  \<open>float_ok s\<close> says that Python's \<open>float(s)\<close> returns rather than raising ValueError.
  The grammar is the one of the language reference: white space around, a sign, then
  \<open>inf\<close>, \<open>infinity\<close> or \<open>nan\<close> in any case, or a decimal number with an optional
  exponent, where single underscores may separate digits.
\<close>

definition is_cspace :: "char \<Rightarrow> bool" where
  "is_cspace c = (c \<in> set [CHR '' '', CHR 0x09, CHR 0x0A, CHR 0x0B, CHR 0x0C, CHR 0x0D])"

fun digitpart :: "string \<Rightarrow> bool" where
  "digitpart [] = False"
| "digitpart [c] = is_digit c"
| "digitpart (c # d # cs) =
     (is_digit c \<and> (if d = CHR ''_'' then digitpart cs else digitpart (d # cs)))"

definition number_ok :: "string \<Rightarrow> bool" where
  "number_ok m =
     (let i = takeWhile (\<lambda>c. c \<noteq> CHR ''.'') m;
          f = dropWhile (\<lambda>c. c \<noteq> CHR ''.'') m
      in if f = [] then digitpart i
         else (i = [] \<and> digitpart (tl f)) \<or> (digitpart i \<and> (tl f = [] \<or> digitpart (tl f))))"

definition exponent_ok :: "string \<Rightarrow> bool" where
  "exponent_ok e =
     (case e of
        [] \<Rightarrow> False
      | c # cs \<Rightarrow> if c = CHR ''+'' \<or> c = CHR ''-'' then digitpart cs else digitpart e)"

definition floatnumber_ok :: "string \<Rightarrow> bool" where
  "floatnumber_ok s =
     (let m = takeWhile (\<lambda>c. c \<noteq> CHR ''e'' \<and> c \<noteq> CHR ''E'') s;
          e = dropWhile (\<lambda>c. c \<noteq> CHR ''e'' \<and> c \<noteq> CHR ''E'') s
      in number_ok m \<and> (e = [] \<or> exponent_ok (tl e)))"

definition float_ok :: "string \<Rightarrow> bool" where
  "float_ok s =
     (let t = rev (dropWhile is_cspace (rev (dropWhile is_cspace s)));
          a = (case t of
                 [] \<Rightarrow> []
               | c # cs \<Rightarrow> if c = CHR ''+'' \<or> c = CHR ''-'' then cs else t)
      in upper a \<in> set [''INF'', ''INFINITY'', ''NAN''] \<or> floatnumber_ok a)"

definition comma_to_dot :: "string \<Rightarrow> string" where
  "comma_to_dot s = replace_str '','' ''.'' s"

definition is_numeric :: "string \<Rightarrow> bool" where
  "is_numeric v = float_ok (comma_to_dot v)"

text \<open>
  The last strategy of the value normalizer compares \<open>float(val)\<close> with 0.5 and 100,
  where \<open>val\<close> holds digits and dots only. Such a string denotes the decimal fraction
  \<open>n / 10 ^ k\<close>: \<open>n\<close> its digits read as one number, \<open>k\<close> the count of digits after the
  dot. Python rounds that fraction to the nearest double, ties to even. Rounding is
  monotone and keeps 0.5 and 100, so the double is above 0.5 exactly when the fraction
  is above the midpoint \<open>1/2 + 1/2^54\<close> of 0.5 and the next double, and below 100
  exactly when the fraction is below the midpoint \<open>100 - 1/2^47\<close> of 100 and the
  double before it.
\<close>

definition digit_val :: "char \<Rightarrow> nat" where
  "digit_val c = of_char c - 48"

definition digits_val :: "string \<Rightarrow> nat" where
  "digits_val s = foldl (\<lambda>n c. 10 * n + digit_val c) 0 (filter is_digit s)"

definition frac_len :: "string \<Rightarrow> nat" where
  "frac_len s = length (filter is_digit (dropWhile (\<lambda>c. c \<noteq> CHR ''.'') s))"

definition float_gt_half :: "string \<Rightarrow> bool" where
  "float_gt_half v = ((2 ^ 53 + 1) * 10 ^ frac_len v < digits_val v * 2 ^ 54)"

definition float_lt_100 :: "string \<Rightarrow> bool" where
  "float_lt_100 v = (digits_val v * 2 ^ 47 < (100 * 2 ^ 47 - 1) * 10 ^ frac_len v)"

section \<open>Value normalizer\<close>

definition is_num_char :: "char \<Rightarrow> bool" where
  "is_num_char c = (is_digit c \<or> c = CHR '','' \<or> c = CHR ''.'')"

text \<open>The cleanup applied to a captured group: units removed, comma to dot.\<close>

definition clean_value :: "string \<Rightarrow> string" where
  "clean_value g =
     comma_to_dot
       (strip (replace_str degree_sign [] (replace_str ''D'' [] (replace_str micro_sign []
          (replace_str (micro_sign @ ''m'') [] (replace_str ''mm'' [] (strip g)))))))"

text \<open>
  Pattern 1 is \<open>label\s*[:=]\s*([\d,\.]+)\<close>. The label is matched literally, which is
  what the regular expression does for the labels the parser passes (letters and digits
  only). The classes that follow one another are disjoint, so the greedy runs are the
  only way to match and the group is the longest run of number characters.
\<close>

definition match_pattern1 :: "string \<Rightarrow> string \<Rightarrow> string option" where
  "match_pattern1 label s =
     (if prefix label s then
        (case dropWhile is_space (drop (length label) s) of
           [] \<Rightarrow> None
         | c # r \<Rightarrow>
             if c = CHR '':'' \<or> c = CHR ''='' then
               (let g = takeWhile is_num_char (dropWhile is_space r)
                in if g = [] then None else Some g)
             else None)
      else None)"

text \<open>Pattern 2 is \<open>label.*?([\d,\.]+)\<close> with DOTALL: after the label, the lazy gap
  stops at the first number character.\<close>

definition match_pattern2 :: "string \<Rightarrow> string \<Rightarrow> string option" where
  "match_pattern2 label s =
     (if prefix label s then
        (let g = takeWhile is_num_char
                   (dropWhile (\<lambda>c. \<not> is_num_char c) (drop (length label) s))
         in if g = [] then None else Some g)
      else None)"

definition capture_value :: "(string \<Rightarrow> string option) \<Rightarrow> string \<Rightarrow> string option" where
  "capture_value m text_upper =
     (case search_first m text_upper of
        None \<Rightarrow> None
      | Some g \<Rightarrow> (let val = clean_value g in if is_numeric val then Some val else None))"

text \<open>\<open>findall_numbers\<close> is \<open>re.findall(r"[\d,\.]+", text)\<close>: the maximal runs of
  number characters, left to right.\<close>

fun numbers_acc :: "string \<Rightarrow> string \<Rightarrow> string list" where
  "numbers_acc cur [] = (if cur = [] then [] else [cur])"
| "numbers_acc cur (c # cs) =
     (if is_num_char c then numbers_acc (cur @ [c]) cs
      else if cur = [] then numbers_acc [] cs
      else cur # numbers_acc [] cs)"

definition findall_numbers :: "string \<Rightarrow> string list" where
  "findall_numbers text = numbers_acc [] text"

definition in_range :: "string \<Rightarrow> bool" where
  "in_range val = (is_numeric val \<and> float_gt_half val \<and> float_lt_100 val)"

definition plausible :: "string \<Rightarrow> bool" where
  "plausible num_str = in_range (strip (comma_to_dot num_str))"

fun first_plausible :: "string list \<Rightarrow> string" where
  "first_plausible [] = []"
| "first_plausible (num_str # rest) =
     (if plausible num_str then strip (comma_to_dot num_str) else first_plausible rest)"

definition extract_value_from_text :: "string \<Rightarrow> string \<Rightarrow> string" where
  "extract_value_from_text text label =
     (let text_upper = upper text in
      case capture_value (match_pattern1 label) text_upper of
        Some val \<Rightarrow> val
      | None \<Rightarrow>
          (case capture_value (match_pattern2 label) text_upper of
             Some val \<Rightarrow> val
           | None \<Rightarrow> first_plausible (findall_numbers text)))"

text \<open>\<open>_extract_value_from_cell\<close>: the cell itself, then the next cell of the row, then
  the cell below; the first one that is numeric once its units are removed.\<close>

definition cell_at :: "row \<Rightarrow> nat \<Rightarrow> cell" where
  "cell_at r i = (if i < length r then r ! i else None)"

definition strip_units :: "string \<Rightarrow> string" where
  "strip_units s =
     strip (replace_str degree_sign [] (replace_str ''D'' [] (replace_str ''mm'' [] (strip s))))"

definition extract_value_from_cell :: "row \<Rightarrow> nat \<Rightarrow> table \<Rightarrow> nat \<Rightarrow> string" where
  "extract_value_from_cell r col_idx t row_idx =
     (let here = strip_units (cell_str (cell_at r col_idx));
          next_cell = strip_units (cell_str (cell_at r (col_idx + 1)));
          below = (if row_idx + 1 < length t then cell_at (t ! (row_idx + 1)) col_idx else None);
          below_val = strip_units (cell_str below)
      in if cell_true (cell_at r col_idx) \<and> is_numeric here then here
         else if cell_true (cell_at r (col_idx + 1)) \<and> is_numeric next_cell then next_cell
         else if cell_true below \<and> is_numeric below_val then below_val
         else [])"

text \<open>
  \<open>_extract_modele_implante\<close> searches \<open>@\s*(\d+)\s*\<degree>\<close> in the cell, then in the
  next cell, then \<open>@\s*(\d+)\<close> in the cell, then in the next cell. After the greedy
  digits a shorter run is followed by a digit, so only the longest run can match.
\<close>

definition match_axis :: "bool \<Rightarrow> string \<Rightarrow> string option" where
  "match_axis with_degree s =
     (case s of
        [] \<Rightarrow> None
      | c # r \<Rightarrow>
          if c = CHR ''@'' then
            (let r1 = dropWhile is_space r; g = takeWhile is_digit r1
             in if g = [] then None
                else if with_degree
                       \<and> \<not> prefix degree_sign (dropWhile is_space (dropWhile is_digit r1))
                then None
                else Some g)
          else None)"

definition extract_modele_implante :: "string \<Rightarrow> row \<Rightarrow> nat \<Rightarrow> string" where
  "extract_modele_implante cell_text r col_idx =
     (let nxt = cell_at r (col_idx + 1) in
      case search_first (match_axis True) cell_text of
        Some g \<Rightarrow> g
      | None \<Rightarrow>
          (case (if cell_true nxt then search_first (match_axis True) (cell_str nxt) else None) of
             Some g \<Rightarrow> g
           | None \<Rightarrow>
               (case search_first (match_axis False) cell_text of
                  Some g \<Rightarrow> g
                | None \<Rightarrow>
                    (case (if cell_true nxt then search_first (match_axis False) (cell_str nxt)
                           else None) of
                       Some g \<Rightarrow> g
                     | None \<Rightarrow> []))))"

section \<open>Eye records\<close>

text \<open>
  A record is a Python dict from field names to strings, kept as an association list
  in insertion order. The keys the parser ever writes are these eleven, one
  constructor of \<open>field\<close> each: \<open>ID Patient\<close>, \<open>Age\<close> (with a circumflex on the A in the
  source), \<open>Oeil\<close> (with the OE ligature in the source), \<open>AL\<close>, \<open>PACHY (mm)\<close>,
  \<open>ACD epit\<close>, \<open>LT\<close>, \<open>K1\<close>, \<open>K2\<close>, \<open>WTW (mm)\<close> and \<open>Axe\<close>.
\<close>

datatype field = ID_Patient | Age | Oeil | AL | PACHY | ACD_epit | LT | K1 | K2 | WTW | Axe

type_synonym eye_data = "(field \<times> string) list"

definition has_key :: "eye_data \<Rightarrow> field \<Rightarrow> bool" where
  "has_key d k = (map_of d k \<noteq> None)"

definition dict_set :: "field \<Rightarrow> string \<Rightarrow> eye_data \<Rightarrow> eye_data" where
  "dict_set k v d = AList.update k v d"

definition set_if_absent :: "field \<Rightarrow> string \<Rightarrow> eye_data \<Rightarrow> eye_data" where
  "set_if_absent k v d = (if has_key d k then d else dict_set k v d)"

definition meas_labels :: "(string \<times> field) list" where
  "meas_labels = [(''AL'', AL), (''CCT'', PACHY), (''ACD'', ACD_epit), (''LT'', LT),
                  (''K1'', K1), (''K2'', K2), (''WTW'', WTW)]"

section \<open>Table layout resolver\<close>

type_synonym cols = "nat option \<times> nat option"

text \<open>\<open>rows_between a b t\<close> lists \<open>t[i]\<close> for \<open>i\<close> in \<open>range(a, b)\<close>, for \<open>b\<close> at most
  the length of \<open>t\<close>.\<close>

definition rows_between :: "nat \<Rightarrow> nat \<Rightarrow> table \<Rightarrow> row list" where
  "rows_between a b t = take (b - a) (drop a t)"

text \<open>The scan of the header row's cells: the pair is \<open>(od_col_idx, os_col_idx)\<close>.\<close>

fun scan_header_cells :: "row \<Rightarrow> nat \<Rightarrow> cols \<Rightarrow> cols" where
  "scan_header_cells [] col_idx cs = cs"
| "scan_header_cells (cell # rest) col_idx cs =
     (if \<not> cell_true cell then scan_header_cells rest (Suc col_idx) cs
      else
        (let cell_text = upper (cell_str cell) in
         if contains ''OD'' cell_text \<and> \<not> contains ''OS'' cell_text \<and> fst cs = None
         then scan_header_cells rest (Suc col_idx) (Some col_idx, snd cs)
         else if contains ''OS'' cell_text \<and> snd cs = None
         then (if \<not> contains ''OD'' cell_text
               then scan_header_cells rest (Suc col_idx) (fst cs, Some col_idx)
               else scan_header_cells rest (Suc col_idx) cs)
         else scan_header_cells rest (Suc col_idx) cs))"

text \<open>The search for separate columns in the rows below a combined header cell.
  \<open>match_al\<close> is the pattern \<open>AL:\s*([\d,\.]+)\<close>.\<close>

definition match_al :: "string \<Rightarrow> string option" where
  "match_al s =
     (if prefix ''AL:'' s then
        (let g = takeWhile is_num_char (dropWhile is_space (drop 3 s))
         in if g = [] then None else Some g)
      else None)"

definition al_value_ok :: "string \<Rightarrow> bool" where
  "al_value_ok cell_upper =
     (case search_first match_al cell_upper of
        None \<Rightarrow> False
      | Some g \<Rightarrow> float_ok (comma_to_dot g))"

definition assign_col :: "nat \<Rightarrow> nat \<Rightarrow> cols \<Rightarrow> cols" where
  "assign_col col_idx n cs =
     (if col_idx < n div 2 then
        (case fst cs of
           None \<Rightarrow> (Some col_idx, snd cs)
         | Some od_col \<Rightarrow> if col_idx < od_col then (Some col_idx, snd cs) else cs)
      else
        (if snd cs = None \<or> (case fst cs of None \<Rightarrow> 0 | Some od_col \<Rightarrow> od_col) < col_idx
         then (fst cs, Some col_idx)
         else cs))"

definition check_row_al :: "row \<Rightarrow> cols \<Rightarrow> cols" where
  "check_row_al check_row cs0 =
     foldl (\<lambda>cs col_idx.
              (let cell_upper = upper (cell_str (check_row ! col_idx)) in
               if contains ''AL:'' cell_upper \<and> al_value_ok cell_upper
               then assign_col col_idx (length check_row) cs
               else cs))
       cs0 [0..<length check_row]"

definition check_row_multiline :: "row \<Rightarrow> cols \<Rightarrow> cols" where
  "check_row_multiline check_row cs0 =
     foldl (\<lambda>cs col_idx.
              (let cell_val = cell_str (check_row ! col_idx) in
               if contains [CHR 0x0A] cell_val
                  \<and> (contains ''AL'' (upper cell_val) \<or> contains ''CCT'' (upper cell_val))
               then assign_col col_idx (length check_row) cs
               else cs))
       cs0 [0..<length check_row]"

fun resolve_same_col :: "row list \<Rightarrow> cols \<Rightarrow> cols" where
  "resolve_same_col [] cs = cs"
| "resolve_same_col (check_row # rest) cs =
     (if length check_row < 2 then resolve_same_col rest cs
      else
        (let cs' = check_row_multiline check_row (check_row_al check_row cs) in
         if fst cs' \<noteq> None \<and> snd cs' \<noteq> None \<and> fst cs' \<noteq> snd cs' then cs'
         else resolve_same_col rest cs'))"

definition max_cols :: "table \<Rightarrow> nat" where
  "max_cols t = foldl max 0 (map length (filter (\<lambda>r. r \<noteq> []) t))"

definition position_heuristic :: "table \<Rightarrow> cols" where
  "position_heuristic t =
     (if 4 \<le> max_cols t then (Some 0, Some 4)
      else (Some 0, Some (if 1 < max_cols t then max_cols t - 1 else 1)))"

definition resolve_columns :: "table \<Rightarrow> nat \<Rightarrow> row \<Rightarrow> cols" where
  "resolve_columns t row_idx r =
     (let cs1 = scan_header_cells r 0 (None, None);
          cs2 = (if fst cs1 = snd cs1 \<and> fst cs1 \<noteq> None
                 then resolve_same_col
                        (rows_between (row_idx + 1) (min (row_idx + 10) (length t)) t) cs1
                 else cs1)
      in if fst cs2 = snd cs2 \<and> fst cs2 \<noteq> None then position_heuristic t else cs2)"

text \<open>The header row is the first non-empty row whose joined, upper-cased text holds
  \<open>OD\<close> or \<open>OS\<close>; the scan of the table stops there.\<close>

fun find_header_from :: "table \<Rightarrow> nat \<Rightarrow> row list \<Rightarrow> (nat \<times> cols) option" where
  "find_header_from t row_idx [] = None"
| "find_header_from t row_idx (r # rest) =
     (if r \<noteq> [] \<and> (contains ''OD'' (row_text r) \<or> contains ''OS'' (row_text r))
      then Some (row_idx, resolve_columns t row_idx r)
      else find_header_from t (Suc row_idx) rest)"

definition find_header :: "table \<Rightarrow> (nat \<times> cols) option" where
  "find_header t = find_header_from t 0 t"

text \<open>The defaults when a column is still unknown. The search for an \<open>AL:\<close> cell in
  column 4 and its failure both give column 4.\<close>

definition default_os_col :: "table \<Rightarrow> nat \<Rightarrow> nat" where
  "default_os_col t header_row_idx =
     (if list_ex (\<lambda>check_row. 4 < length check_row \<and> cell_true (check_row ! 4)
                      \<and> contains ''AL:'' (upper (cell_str (check_row ! 4))))
           (rows_between (header_row_idx + 1) (min (header_row_idx + 6) (length t)) t)
      then 4 else 4)"

section \<open>Measurement extractor\<close>

type_synonym acc = "eye_data \<times> eye_data"

definition write_by_column :: "nat \<Rightarrow> nat \<Rightarrow> nat \<Rightarrow> field \<Rightarrow> string \<Rightarrow> acc \<Rightarrow> acc" where
  "write_by_column od_col os_col col_idx excel_col val a =
     (if col_idx = od_col then (set_if_absent excel_col val (fst a), snd a)
      else if col_idx = os_col then (fst a, set_if_absent excel_col val (snd a))
      else if col_idx < 4 then (set_if_absent excel_col val (fst a), snd a)
      else (fst a, set_if_absent excel_col val (snd a)))"

text \<open>Pattern 1: a cell holding \<open>LABEL:\<close>.\<close>

definition inline_cell :: "nat \<Rightarrow> nat \<Rightarrow> acc \<Rightarrow> nat \<times> cell \<Rightarrow> acc" where
  "inline_cell od_col os_col a0 ic =
     (case ic of (col_idx, cell) \<Rightarrow>
        if \<not> cell_true cell then a0
        else
          foldl (\<lambda>a (meas_label, excel_col).
                   if contains (meas_label @ '':'') (upper (cell_str cell)) then
                     (let val = extract_value_from_text (cell_str cell) meas_label
                      in if val \<noteq> [] then write_by_column od_col os_col col_idx excel_col val a
                         else a)
                   else a)
            a0 meas_labels)"

text \<open>Pattern 2: a cell of several lines whose first non-blank line names the label.\<close>

definition nonblank_lines :: "string \<Rightarrow> string list" where
  "nonblank_lines s = filter (\<lambda>l. l \<noteq> []) (map strip (split_lines s))"

definition write_by_half :: "nat \<Rightarrow> field \<Rightarrow> string \<Rightarrow> acc \<Rightarrow> acc" where
  "write_by_half col_idx excel_col val a =
     (if col_idx < 4 then (set_if_absent excel_col val (fst a), snd a)
      else (fst a, set_if_absent excel_col val (snd a)))"

definition multiline_cell :: "acc \<Rightarrow> nat \<times> cell \<Rightarrow> acc" where
  "multiline_cell a0 ic =
     (case ic of (col_idx, cell) \<Rightarrow>
        if cell_true cell \<and> contains [CHR 0x0A] (cell_str cell)
           \<and> 2 \<le> length (nonblank_lines (cell_str cell))
        then
          (let lines = nonblank_lines (cell_str cell) in
           foldl (\<lambda>a (meas_label, excel_col).
                    if contains meas_label (upper (lines ! 0)) then
                      (let v2 = extract_value_from_text (lines ! 1) meas_label;
                           val = (if v2 = [] then extract_value_from_text (cell_str cell) meas_label
                                  else v2)
                       in if val \<noteq> [] then write_by_half col_idx excel_col val a else a)
                    else a)
             a0 meas_labels)
        else a0)"

text \<open>Pattern 3: any cell naming a label, for the eye of its half of the row
  (columns 0 to 3 the right eye, the others the left eye), and the axis next to K1.\<close>

definition column_cell :: "row \<Rightarrow> nat \<Rightarrow> cell \<Rightarrow> eye_data \<Rightarrow> eye_data" where
  "column_cell r col_idx cell d0 =
     (if \<not> cell_true cell then d0
      else
        (let cell_text = cell_str cell;
             cell_text_upper = upper cell_text;
             d1 = foldl (\<lambda>d (meas_label, excel_col).
                           if contains meas_label cell_text_upper \<and> \<not> has_key d excel_col then
                             (let val = extract_value_from_text cell_text meas_label
                              in if val \<noteq> [] then dict_set excel_col val d else d)
                           else d)
                    d0 meas_labels
         in if contains ''K1'' cell_text_upper \<and> \<not> has_key d1 Axe then
              (let modele_val = extract_modele_implante cell_text r col_idx
               in if modele_val \<noteq> [] then dict_set Axe modele_val d1 else d1)
            else d1))"

definition column_pass :: "row \<Rightarrow> acc \<Rightarrow> nat \<times> cell \<Rightarrow> acc" where
  "column_pass r a ic =
     (case ic of (col_idx, cell) \<Rightarrow>
        if col_idx < 4 then (column_cell r col_idx cell (fst a), snd a)
        else (fst a, column_cell r col_idx cell (snd a)))"

definition extract_row :: "nat \<Rightarrow> nat \<Rightarrow> acc \<Rightarrow> row \<Rightarrow> acc" where
  "extract_row od_col os_col a r =
     (if r = [] then a
      else foldl (column_pass r)
             (foldl multiline_cell
                (foldl (inline_cell od_col os_col) a (enumerate 0 r))
                (enumerate 0 r))
             (enumerate 0 r))"

text \<open>The rows read below the header are those of \<open>range(header_row_idx + 1,
  min(header_row_idx + 20, len(table)))\<close>.\<close>

definition measurement_rows :: "table \<Rightarrow> nat \<Rightarrow> row list" where
  "measurement_rows t header_row_idx =
     rows_between (header_row_idx + 1) (min (header_row_idx + 20) (length t)) t"

definition extract_structured :: "table \<Rightarrow> acc \<Rightarrow> acc" where
  "extract_structured t a =
     (case find_header t of
        None \<Rightarrow> a
      | Some (header_row_idx, cs) \<Rightarrow>
          (let od_col = (case fst cs of None \<Rightarrow> 0 | Some c \<Rightarrow> c);
               os_col = (case snd cs of None \<Rightarrow> default_os_col t header_row_idx | Some c \<Rightarrow> c)
           in foldl (extract_row od_col os_col) a (measurement_rows t header_row_idx)))"

text \<open>
  The per-table fallback (``the original method'') runs when both accumulators are
  still empty after the header-based pass. It reads every row that names an eye and
  writes without looking at what the accumulator holds.
\<close>

definition fallback_labels :: "(string \<times> field) list" where
  "fallback_labels = [(''CCT'', PACHY), (''ACD'', ACD_epit), (''LT'', LT),
                      (''K1'', K1), (''K2'', K2), (''WTW'', WTW)]"

definition fallback_write :: "bool \<Rightarrow> bool \<Rightarrow> nat \<Rightarrow> nat \<Rightarrow> field \<Rightarrow> string \<Rightarrow> acc \<Rightarrow> acc" where
  "fallback_write has_od has_os col_idx n excel_col val a =
     (if has_od \<and> col_idx < n div 2 then (dict_set excel_col val (fst a), snd a)
      else if has_os \<and> n div 2 \<le> col_idx then (fst a, dict_set excel_col val (snd a))
      else a)"

definition fallback_cell :: "table \<Rightarrow> nat \<Rightarrow> row \<Rightarrow> bool \<Rightarrow> bool \<Rightarrow> acc \<Rightarrow> nat \<times> cell \<Rightarrow> acc" where
  "fallback_cell t row_idx r has_od has_os a0 ic =
     (case ic of (col_idx, cell) \<Rightarrow>
        (let cell_text = upper (cell_str cell);
             a1 = (if contains ''AL'' cell_text
                   then fallback_write has_od has_os col_idx (length r) AL
                          (extract_value_from_cell r col_idx t row_idx) a0
                   else a0)
         in foldl (\<lambda>a (field_label, excel_col).
                     if contains field_label cell_text
                     then fallback_write has_od has_os col_idx (length r) excel_col
                            (extract_value_from_cell r col_idx t row_idx) a
                     else a)
              a1 fallback_labels))"

definition fallback_row :: "table \<Rightarrow> acc \<Rightarrow> nat \<Rightarrow> acc" where
  "fallback_row t a row_idx =
     (let r = t ! row_idx;
          has_od = contains ''OD'' (row_text r);
          has_os = contains ''OS'' (row_text r)
      in if r \<noteq> [] \<and> (has_od \<or> has_os)
         then foldl (fallback_cell t row_idx r has_od has_os) a (enumerate 0 r)
         else a)"

definition extract_fallback :: "table \<Rightarrow> acc \<Rightarrow> acc" where
  "extract_fallback t a = foldl (fallback_row t) a [0..<length t]"

definition extract_table :: "acc \<Rightarrow> table \<Rightarrow> acc" where
  "extract_table a t =
     (if length t < 2 then a
      else
        (let a1 = extract_structured t a
         in if fst a1 = [] \<and> snd a1 = [] then extract_fallback t a1 else a1))"

text \<open>The end of \<open>_extract_from_tables\<close>: an empty accumulator is replaced by a default
  record, a non-empty one gets the identity fields and the keys K1, K2 and Axe.\<close>

definition ensure_keys :: "eye_data \<Rightarrow> eye_data" where
  "ensure_keys d = set_if_absent Axe [] (set_if_absent K2 [] (set_if_absent K1 [] d))"

definition attach_identity :: "string \<Rightarrow> string \<Rightarrow> string \<Rightarrow> eye_data \<Rightarrow> eye_data" where
  "attach_identity eye patient_id age d =
     dict_set Age age (dict_set ID_Patient patient_id (dict_set Oeil eye d))"

definition finalize_table :: "string \<Rightarrow> string \<Rightarrow> string \<Rightarrow> eye_data \<Rightarrow> eye_data" where
  "finalize_table eye patient_id age d =
     (if d = []
      then [(Oeil, eye), (ID_Patient, patient_id), (Age, age), (K1, []), (K2, []), (Axe, [])]
      else ensure_keys (attach_identity eye patient_id age d))"

definition table_accumulators :: "table list \<Rightarrow> acc" where
  "table_accumulators tables = foldl extract_table ([], []) tables"

definition extract_from_tables ::
  "table list \<Rightarrow> string \<Rightarrow> string \<Rightarrow> eye_data option \<times> eye_data option" where
  "extract_from_tables tables patient_id age =
     (let a = table_accumulators tables
      in if fst a \<noteq> [] \<or> snd a \<noteq> []
         then (Some (finalize_table ''OD'' patient_id age (fst a)),
               Some (finalize_table ''OS'' patient_id age (snd a)))
         else (None, None))"

section \<open>Age\<close>

text \<open>
  \<open>datetime.strptime\<close> for the nine formats of \<open>_calculate_age\<close>. A format is
  day, month, year or year, month, day around one separator; the year has four digits
  (\<open>%Y\<close>) or two (\<open>%y\<close>). The library matches the whole string against
  \<open>%d = 3[0-1]|[1-2]\d|0[1-9]|[1-9]| [1-9]\<close>, \<open>%m = 1[0-2]|0[1-9]|[1-9]\<close>,
  \<open>%Y = \d\d\d\d\<close>, \<open>%y = \d\d\<close>. None of these holds a separator, so the string
  matches exactly when its split at the separator has three parts of these shapes.
  A two-digit year from 69 to 99 is read in the 1900s, one from 00 to 68 in the 2000s.
  The date must exist: year 0 and a day beyond the month's length raise ValueError.
\<close>

datatype year_kind = Y4 | Y2

datatype date_format = DMY char year_kind | YMD char

definition date_formats :: "date_format list" where
  "date_formats =
     [DMY (CHR ''.'') Y4, DMY (CHR ''/'') Y4, DMY (CHR ''-'') Y4,
      DMY (CHR ''.'') Y2, DMY (CHR ''/'') Y2, DMY (CHR ''-'') Y2,
      YMD (CHR ''.''), YMD (CHR ''/''), YMD (CHR ''-'')]"

definition two_digit_year :: "date_format \<Rightarrow> bool" where
  "two_digit_year fmt = (case fmt of DMY sep Y2 \<Rightarrow> True | _ \<Rightarrow> False)"

record date =
  year :: nat
  month :: nat
  day :: nat

fun split_on_acc :: "char \<Rightarrow> string \<Rightarrow> string \<Rightarrow> string list" where
  "split_on_acc sep cur [] = [cur]"
| "split_on_acc sep cur (c # cs) =
     (if c = sep then cur # split_on_acc sep [] cs else split_on_acc sep (cur @ [c]) cs)"

definition parse_day :: "string \<Rightarrow> nat option" where
  "parse_day s =
     (case s of
        [a] \<Rightarrow> if is_digit a \<and> a \<noteq> CHR ''0'' then Some (digit_val a) else None
      | [a, b] \<Rightarrow>
          if a = CHR ''3'' \<and> (b = CHR ''0'' \<or> b = CHR ''1'') then Some (30 + digit_val b)
          else if (a = CHR ''1'' \<or> a = CHR ''2'') \<and> is_digit b
          then Some (10 * digit_val a + digit_val b)
          else if (a = CHR ''0'' \<or> a = CHR '' '') \<and> is_digit b \<and> b \<noteq> CHR ''0''
          then Some (digit_val b)
          else None
      | _ \<Rightarrow> None)"

definition parse_month :: "string \<Rightarrow> nat option" where
  "parse_month s =
     (case s of
        [a] \<Rightarrow> if is_digit a \<and> a \<noteq> CHR ''0'' then Some (digit_val a) else None
      | [a, b] \<Rightarrow>
          if a = CHR ''1'' \<and> (b = CHR ''0'' \<or> b = CHR ''1'' \<or> b = CHR ''2'')
          then Some (10 + digit_val b)
          else if a = CHR ''0'' \<and> is_digit b \<and> b \<noteq> CHR ''0'' then Some (digit_val b)
          else None
      | _ \<Rightarrow> None)"

definition parse_year :: "year_kind \<Rightarrow> string \<Rightarrow> nat option" where
  "parse_year k s =
     (case k of
        Y4 \<Rightarrow> if length s = 4 \<and> list_all is_digit s then Some (digits_val s) else None
      | Y2 \<Rightarrow>
          if length s = 2 \<and> list_all is_digit s
          then Some (if 69 \<le> digits_val s then 1900 + digits_val s else 2000 + digits_val s)
          else None)"

definition leap_year :: "nat \<Rightarrow> bool" where
  "leap_year y = (y mod 4 = 0 \<and> (y mod 100 \<noteq> 0 \<or> y mod 400 = 0))"

definition days_in_month :: "nat \<Rightarrow> nat \<Rightarrow> nat" where
  "days_in_month y m =
     (if m = 2 then (if leap_year y then 29 else 28)
      else if m = 4 \<or> m = 6 \<or> m = 9 \<or> m = 11 then 30 else 31)"

definition make_date :: "nat \<Rightarrow> nat \<Rightarrow> nat \<Rightarrow> date option" where
  "make_date y m d =
     (if 1 \<le> y \<and> y \<le> 9999 \<and> 1 \<le> m \<and> m \<le> 12 \<and> 1 \<le> d \<and> d \<le> days_in_month y m
      then Some \<lparr>year = y, month = m, day = d\<rparr>
      else None)"

definition strptime :: "string \<Rightarrow> date_format \<Rightarrow> date option" where
  "strptime s fmt =
     (case fmt of
        DMY sep k \<Rightarrow>
          (case split_on_acc sep [] s of
             [a, b, c] \<Rightarrow>
               (case (parse_day a, parse_month b, parse_year k c) of
                  (Some d, Some m, Some y) \<Rightarrow> make_date y m d
                | _ \<Rightarrow> None)
           | _ \<Rightarrow> None)
      | YMD sep \<Rightarrow>
          (case split_on_acc sep [] s of
             [a, b, c] \<Rightarrow>
               (case (parse_year Y4 a, parse_month b, parse_day c) of
                  (Some y, Some m, Some d) \<Rightarrow> make_date y m d
                | _ \<Rightarrow> None)
           | _ \<Rightarrow> None))"

text \<open>The loop over the formats. \<open>cur\<close> is \<open>birth_date\<close>: when \<open>replace\<close> raises, the
  date already assigned stays and the loop goes on with the next format.\<close>

fun parse_birth_date :: "date_format list \<Rightarrow> string \<Rightarrow> date option \<Rightarrow> date option" where
  "parse_birth_date [] s cur = cur"
| "parse_birth_date (fmt # rest) s cur =
     (case strptime s fmt of
        None \<Rightarrow> parse_birth_date rest s cur
      | Some bd \<Rightarrow>
          if two_digit_year fmt \<and> year bd < 1950 then
            (case make_date (year bd + 100) (month bd) (day bd) of
               Some bd' \<Rightarrow> Some bd'
             | None \<Rightarrow> parse_birth_date rest s (Some bd))
          else Some bd)"



fun str_nat :: "nat \<Rightarrow> string" where
  "str_nat n =
     (if n < 10 then [''0123456789'' ! n]
      else str_nat (n div 10) @ [''0123456789'' ! (n mod 10)])"

declare str_nat.simps [simp del]

definition str_int :: "int \<Rightarrow> string" where
  "str_int i = (if i < 0 then ''-'' @ str_nat (nat (- i)) else str_nat (nat i))"

definition age_on :: "date \<Rightarrow> date \<Rightarrow> int" where
  "age_on today bd =
     (let age = int (year today) - int (year bd)
      in if month today < month bd \<or> (month today = month bd \<and> day today < day bd)
         then age - 1 else age)"

text \<open>\<open>today\<close> stands for \<open>datetime.now()\<close>.\<close>

definition calculate_age :: "date \<Rightarrow> string \<Rightarrow> string" where
  "calculate_age today birth_date_str =
     (if birth_date_str = [] then []
      else
        (case parse_birth_date date_formats birth_date_str None of
           None \<Rightarrow> []
         | Some bd \<Rightarrow> str_int (age_on today bd)))"

section \<open>Text fallback and orchestration\<close>

text \<open>
  The free-text patterns are searched by the regular expression library over the whole
  report text. The library's search is a parameter \<open>rx\<close> of the model: \<open>rx p text\<close> is
  group 1 of the first match of pattern \<open>p\<close> in \<open>text\<close>, or \<open>None\<close> when nothing matches.
  Every result below holds for every such function. The patterns are named:
  \<^item> \<open>Pat_id_patient\<close>: \<open>ID\s+Patient[:\s]+([A-Z0-9_\-\s]+)\<close>;
    \<open>Pat_patient_id\<close>: \<open>Patient[:\s]+ID[:\s]+([A-Z0-9_\-\s]+)\<close>;
    \<open>Pat_id_patient_lower\<close>: \<open>ID\s+patient[:\s]+([A-Z0-9_\-\s]+)\<close>;
  \<^item> \<open>Pat_ne_le\<close> and \<open>Pat_date_naissance\<close>: the birth-date label followed by
    \<open>(\d{1,2}[/\-\.]\d{1,2}[/\-\.]\d{2,4})\<close>;
  \<^item> \<open>Eye_label e l\<close>: \<open>e[:\s]*.*?l[:\s]+([\d.,]+)\<close>;
    \<open>Label_eye l e\<close>: \<open>l[:\s]+([\d.,]+).*?e\<close>;
    \<open>Eye_label_mm e l\<close>: \<open>e[:\s]*.*?l[:\s]+([\d.,]+)\s*mm\<close>;
  \<^item> \<open>Eye_axis_degree e\<close>, \<open>Axis_degree\<close>, \<open>Eye_axis e\<close>, \<open>Axis\<close>: \<open>@\s*(\d+)\<close> with or
    without the eye in front and the degree sign behind.
\<close>

datatype eye_side = OD | OS

definition eye_name :: "eye_side \<Rightarrow> string" where
  "eye_name e = (case e of OD \<Rightarrow> ''OD'' | OS \<Rightarrow> ''OS'')"

datatype text_label =
  L_AL | L_CCT | L_PACHY | L_ACD | L_ACD_epit | L_LT | L_K1 | L_K2 | L_WTW

datatype pattern =
    Pat_id_patient | Pat_patient_id | Pat_id_patient_lower
  | Pat_ne_le | Pat_date_naissance
  | Eye_label eye_side text_label
  | Label_eye text_label eye_side
  | Eye_label_mm eye_side text_label
  | Eye_axis_degree eye_side | Axis_degree | Eye_axis eye_side | Axis

type_synonym regex_search = "pattern \<Rightarrow> string \<Rightarrow> string option"

definition extract_field :: "regex_search \<Rightarrow> string \<Rightarrow> pattern \<Rightarrow> string" where
  "extract_field rx text p = (case rx p text of None \<Rightarrow> [] | Some g \<Rightarrow> strip g)"

definition extract_numeric_field :: "regex_search \<Rightarrow> string \<Rightarrow> pattern \<Rightarrow> string" where
  "extract_numeric_field rx text p =
     (case rx p text of
        None \<Rightarrow> []
      | Some g \<Rightarrow> (let v = comma_to_dot (strip g) in if float_ok v then v else []))"

text \<open>\<open>first_nonempty\<close> is the chain \<open>x = f(p1); if not x: x = f(p2); ...\<close>.\<close>

fun first_nonempty :: "(pattern \<Rightarrow> string) \<Rightarrow> pattern list \<Rightarrow> string" where
  "first_nonempty f [] = []"
| "first_nonempty f [p] = f p"
| "first_nonempty f (p # q # ps) = (if f p \<noteq> [] then f p else first_nonempty f (q # ps))"

definition numeric_chain :: "regex_search \<Rightarrow> string \<Rightarrow> pattern list \<Rightarrow> string" where
  "numeric_chain rx text ps = comma_to_dot (first_nonempty (extract_numeric_field rx text) ps)"

fun first_match :: "regex_search \<Rightarrow> string \<Rightarrow> pattern list \<Rightarrow> string" where
  "first_match rx text [] = []"
| "first_match rx text (p # ps) =
     (case rx p text of Some g \<Rightarrow> g | None \<Rightarrow> first_match rx text ps)"

definition extract_eye_data :: "regex_search \<Rightarrow> string \<Rightarrow> eye_side \<Rightarrow> eye_data" where
  "extract_eye_data rx text e =
     dict_set Axe (first_match rx text [Eye_axis_degree e, Axis_degree, Eye_axis e, Axis])
    (dict_set WTW (numeric_chain rx text [Eye_label e L_WTW, Label_eye L_WTW e])
    (dict_set K2 (numeric_chain rx text [Eye_label e L_K2, Label_eye L_K2 e])
    (dict_set K1 (numeric_chain rx text [Eye_label e L_K1, Label_eye L_K1 e])
    (dict_set LT (numeric_chain rx text [Eye_label e L_LT, Label_eye L_LT e])
    (dict_set ACD_epit
       (numeric_chain rx text [Eye_label e L_ACD, Label_eye L_ACD e, Eye_label e L_ACD_epit])
    (dict_set PACHY
       (numeric_chain rx text [Eye_label e L_CCT, Label_eye L_CCT e, Eye_label e L_PACHY])
    (dict_set AL
       (numeric_chain rx text [Eye_label e L_AL, Label_eye L_AL e, Eye_label_mm e L_AL])
       [])))))))"

text \<open>A report is its pages; a page gives its tables and its text (\<open>None\<close> when the
  page has none).\<close>

record page =
  page_tables :: "table list"
  page_text :: "string option"

definition all_tables :: "page list \<Rightarrow> table list" where
  "all_tables pages = concat (map page_tables pages)"

definition full_text_of :: "page list \<Rightarrow> string" where
  "full_text_of pages = concat (map (\<lambda>p. cell_str (page_text p)) pages)"

definition extract_patient_id :: "regex_search \<Rightarrow> string \<Rightarrow> string" where
  "extract_patient_id rx full_text =
     (let patient_id =
            first_nonempty (extract_field rx full_text)
              [Pat_id_patient, Pat_patient_id, Pat_id_patient_lower]
      in if patient_id \<noteq> [] then
           (if filter is_digit patient_id \<noteq> [] then filter is_digit patient_id
            else strip patient_id)
         else patient_id)"

definition ne_label :: string where
  "ne_label = [CHR ''N'', CHR 0xC3, CHR 0xA9]"

text \<open>The birth date from a table: in each table the first row of three cells or more
  whose first cell names the label and whose third cell is filled ends the scan of
  that table.\<close>

definition birth_row :: "row \<Rightarrow> bool" where
  "birth_row r =
     (3 \<le> length r
      \<and> (contains (ne_label @ ''(e) le'') (strip (cell_str (r ! 0)))
           \<or> contains ne_label (strip (cell_str (r ! 0))))
      \<and> cell_true (r ! 2))"

fun tables_birth_date :: "table list \<Rightarrow> string" where
  "tables_birth_date [] = []"
| "tables_birth_date (t # ts) =
     (case find birth_row t of
        None \<Rightarrow> tables_birth_date ts
      | Some r \<Rightarrow>
          if strip (cell_str (r ! 2)) \<noteq> [] then strip (cell_str (r ! 2))
          else tables_birth_date ts)"

definition extract_birth_date :: "regex_search \<Rightarrow> string \<Rightarrow> table list \<Rightarrow> string" where
  "extract_birth_date rx full_text tables =
     (let b = first_nonempty (extract_field rx full_text) [Pat_ne_le, Pat_date_naissance]
      in if b = [] \<and> tables \<noteq> [] then tables_birth_date tables else b)"

definition text_record :: "regex_search \<Rightarrow> string \<Rightarrow> string \<Rightarrow> string \<Rightarrow> eye_side \<Rightarrow> eye_data" where
  "text_record rx full_text patient_id age e =
     ensure_keys
       (dict_set Oeil (eye_name e)
          (dict_set Age age
             (dict_set ID_Patient patient_id (extract_eye_data rx full_text e))))"

definition report_patient_id :: "regex_search \<Rightarrow> page list \<Rightarrow> string" where
  "report_patient_id rx pages = extract_patient_id rx (full_text_of pages)"

definition report_age :: "regex_search \<Rightarrow> date \<Rightarrow> page list \<Rightarrow> string" where
  "report_age rx today pages =
     (let birth_date_str = extract_birth_date rx (full_text_of pages) (all_tables pages)
      in if birth_date_str \<noteq> [] then calculate_age today birth_date_str else [])"

definition parse :: "regex_search \<Rightarrow> date \<Rightarrow> page list \<Rightarrow> eye_data list" where
  "parse rx today pages =
     (let tables = all_tables pages;
          full_text = full_text_of pages;
          patient_id = report_patient_id rx pages;
          age = report_age rx today pages;
          from_text = [text_record rx full_text patient_id age OD,
                       text_record rx full_text patient_id age OS]
      in if tables \<noteq> [] then
           (case extract_from_tables tables patient_id age of
              (Some od_data, Some os_data) \<Rightarrow>
                if od_data \<noteq> [] \<and> os_data \<noteq> [] then [od_data, os_data] else from_text
            | _ \<Rightarrow> from_text)
         else from_text)"

section \<open>Spreadsheet merge\<close>

text \<open>
  The part of \<open>merge_excel_data\<close> that decides which rows are written and where, for a
  call with an existing workbook. A worksheet is its cell values with the two bounds
  \<open>max_row\<close> and \<open>max_column\<close> the library keeps; a cell that was never set reads as
  \<open>None\<close>. Asking the library for a cell creates it, which can raise the bounds: the
  model writes these raises out. Cell styles are left out. A cell holds nothing, a
  string, an integer, or a float, kept as the decimal text it was read from. Loading
  and saving the workbook are the identity on this data.
\<close>

datatype xl_value = XNone | XStr string | XInt int | XFloat string

record worksheet =
  cells :: "((nat \<times> nat) \<times> xl_value) list"
  max_row :: nat
  max_column :: nat

type_synonym xl_row = "(string \<times> string) list"

definition cell_value :: "worksheet \<Rightarrow> nat \<Rightarrow> nat \<Rightarrow> xl_value" where
  "cell_value ws r c = (case map_of (cells ws) (r, c) of None \<Rightarrow> XNone | Some v \<Rightarrow> v)"

text \<open>\<open>xl_str\<close> is \<open>str(value)\<close> and \<open>xl_true\<close> the truth value of a cell value.\<close>

definition xl_str :: "xl_value \<Rightarrow> string" where
  "xl_str v = (case v of XNone \<Rightarrow> ''None'' | XStr s \<Rightarrow> s | XInt i \<Rightarrow> str_int i | XFloat s \<Rightarrow> s)"

definition xl_true :: "xl_value \<Rightarrow> bool" where
  "xl_true v =
     (case v of
        XNone \<Rightarrow> False
      | XStr s \<Rightarrow> s \<noteq> []
      | XInt i \<Rightarrow> i \<noteq> 0
      | XFloat s \<Rightarrow>
          list_ex (\<lambda>c. c \<in> set ''123456789nN'')
            (takeWhile (\<lambda>c. c \<noteq> CHR ''e'' \<and> c \<noteq> CHR ''E'') s))"

text \<open>\<open>key_text v\<close> is \<open>str(value or "").strip()\<close>.\<close>

definition key_text :: "xl_value \<Rightarrow> string" where
  "key_text v = (if xl_true v then strip (xl_str v) else [])"

definition id_patient_name :: string where
  "id_patient_name = ''ID Patient''"

definition oeil_name :: string where
  "oeil_name = [CHR 0xC5, CHR 0x92] @ ''il''"

definition age_name :: string where
  "age_name = [CHR 0xC3, CHR 0x82] @ ''ge''"

definition modele_name :: string where
  "modele_name = ''Mod'' @ [CHR 0xC3, CHR 0xA8] @ ''le implant'' @ [CHR 0xC3, CHR 0xA9]"

definition numeric_fields :: "string list" where
  "numeric_fields = [''AL'', ''ACD epit'', ''LT'', ''PACHY (mm)'', ''WTW (mm)'',
                     ''PUISSANCE IOL'', ''TORIQUE PROG EDOF'', ''K1'', ''K2'', age_name]"

text \<open>The header scan of one row: \<open>column_map[header_value] = col_idx\<close> for every filled
  cell of the row, columns 1 to \<open>n\<close>.\<close>

definition header_columns_of :: "worksheet \<Rightarrow> nat \<Rightarrow> nat \<Rightarrow> (string \<times> nat) list" where
  "header_columns_of ws header_row n =
     foldl (\<lambda>column_map col_idx.
              if xl_true (cell_value ws header_row col_idx)
                 \<and> strip (xl_str (cell_value ws header_row col_idx)) \<noteq> []
              then AList.update (strip (xl_str (cell_value ws header_row col_idx))) col_idx
                     column_map
              else column_map)
       [] [1..<Suc n]"

definition row_has_data :: "worksheet \<Rightarrow> (string \<times> nat) list \<Rightarrow> nat \<Rightarrow> bool" where
  "row_has_data ws column_map row_idx =
     list_ex (\<lambda>col_idx. cell_value ws row_idx col_idx \<noteq> XNone
                       \<and> strip (xl_str (cell_value ws row_idx col_idx)) \<noteq> [])
       (map snd column_map)"

definition last_data_row_of :: "worksheet \<Rightarrow> (string \<times> nat) list \<Rightarrow> nat \<Rightarrow> nat" where
  "last_data_row_of ws column_map header_row =
     foldl (\<lambda>last row_idx. if row_has_data ws column_map row_idx then row_idx else last)
       header_row [Suc header_row..<Suc (max_row ws)]"

definition after_last_data :: "nat \<Rightarrow> nat \<Rightarrow> nat" where
  "after_last_data last_data_row header_row =
     (if header_row < last_data_row then last_data_row + 1 else header_row + 1)"

definition first_available_row_of ::
  "worksheet \<Rightarrow> nat option \<Rightarrow> nat option \<Rightarrow> nat \<Rightarrow> nat \<Rightarrow> nat" where
  "first_available_row_of ws id_patient_col oeil_col header_row last_data_row =
     (case (id_patient_col, oeil_col) of
        (Some ic, Some ec) \<Rightarrow>
          (case find (\<lambda>row_idx. key_text (cell_value ws row_idx ic) = []
                               \<and> key_text (cell_value ws row_idx ec) = [])
                  [Suc header_row..<Suc (max_row ws)] of
             Some row_idx \<Rightarrow> row_idx
           | None \<Rightarrow> after_last_data last_data_row header_row)
      | _ \<Rightarrow> after_last_data last_data_row header_row)"

text \<open>The keys of the rows already in the sheet, in row order.\<close>

definition existing_keys_of ::
  "worksheet \<Rightarrow> nat option \<Rightarrow> nat option \<Rightarrow> nat \<Rightarrow> (string \<times> string) list" where
  "existing_keys_of ws id_patient_col oeil_col header_row =
     (case (id_patient_col, oeil_col) of
        (Some ic, Some ec) \<Rightarrow>
          filter (\<lambda>k. fst k \<noteq> [] \<and> snd k \<noteq> [])
            (map (\<lambda>row_idx. (key_text (cell_value ws row_idx ic),
                              key_text (cell_value ws row_idx ec)))
               [Suc header_row..<Suc (max_row ws)])
      | _ \<Rightarrow> [])"

definition row_get :: "xl_row \<Rightarrow> string \<Rightarrow> string" where
  "row_get row_data k = (case map_of row_data k of None \<Rightarrow> [] | Some v \<Rightarrow> v)"

definition row_key :: "xl_row \<Rightarrow> string \<times> string" where
  "row_key row_data = (strip (row_get row_data id_patient_name), strip (row_get row_data oeil_name))"

text \<open>The filter of the incoming rows; \<open>keys\<close> is the set \<open>existing_keys\<close>, which grows
  with every accepted row.\<close>

fun filter_rows :: "(string \<times> string) list \<Rightarrow> xl_row list \<Rightarrow> xl_row list" where
  "filter_rows keys [] = []"
| "filter_rows keys (row_data # rest) =
     (if fst (row_key row_data) \<noteq> [] \<and> snd (row_key row_data) \<noteq> []
         \<and> row_key row_data \<notin> set keys
      then row_data # filter_rows (row_key row_data # keys) rest
      else filter_rows keys rest)"

text \<open>\<open>int(s)\<close> in base ten: white space around, a sign, digits with single underscores
  between them.\<close>

definition py_int :: "string \<Rightarrow> int option" where
  "py_int s =
     (let t = rev (dropWhile is_cspace (rev (dropWhile is_cspace s)));
          neg = (t \<noteq> [] \<and> hd t = CHR ''-'');
          a = (if t \<noteq> [] \<and> (hd t = CHR ''+'' \<or> hd t = CHR ''-'') then tl t else t)
      in if digitpart a
         then Some (if neg then - int (digits_val a) else int (digits_val a))
         else None)"

text \<open>The value written into a cell for a field of an incoming row.\<close>

definition digits_or_text :: "string \<Rightarrow> xl_value" where
  "digits_or_text v =
     (if filter is_digit v \<noteq> [] then XInt (int (digits_val v)) else XStr (strip v))"

definition convert_value :: "string \<Rightarrow> string \<Rightarrow> xl_value" where
  "convert_value field_name v =
     (if v = [] then XStr v
      else if field_name = id_patient_name then digits_or_text v
      else if field_name = modele_name then digits_or_text v
      else if field_name \<in> set numeric_fields then
        (let num_str = strip (comma_to_dot v) in
         if CHR ''.'' \<in> set num_str
         then (if float_ok num_str then XFloat num_str else XStr v)
         else (case py_int num_str of Some i \<Rightarrow> XInt i | None \<Rightarrow> XStr v))
      else XStr v)"

definition set_cell :: "nat \<Rightarrow> nat \<Rightarrow> xl_value \<Rightarrow> worksheet \<Rightarrow> worksheet" where
  "set_cell r c v ws =
     ws\<lparr>cells := AList.update (r, c) v (cells ws),
        max_row := max (max_row ws) r,
        max_column := max (max_column ws) c\<rparr>"

text \<open>Writing one accepted row into row \<open>new_row_idx\<close>: the cells of the row are created
  for the copy of the formatting, then the fields that have a column are set.\<close>

definition write_row :: "(string \<times> nat) list \<Rightarrow> nat \<Rightarrow> xl_row \<Rightarrow> worksheet \<Rightarrow> worksheet" where
  "write_row column_map new_row_idx row_data ws =
     foldl (\<lambda>w (field_name, v).
              case map_of column_map field_name of
                None \<Rightarrow> w
              | Some col_idx \<Rightarrow> set_cell new_row_idx col_idx (convert_value field_name v) w)
       (ws\<lparr>max_row := max (max_row ws) new_row_idx\<rparr>) row_data"

fun write_rows :: "(string \<times> nat) list \<Rightarrow> nat \<Rightarrow> xl_row list \<Rightarrow> worksheet \<Rightarrow> worksheet" where
  "write_rows column_map current_row [] ws = ws"
| "write_rows column_map current_row (row_data # rest) ws =
     write_rows column_map (Suc current_row) rest (write_row column_map current_row row_data ws)"

definition merge_sheet :: "worksheet \<Rightarrow> xl_row list \<Rightarrow> worksheet" where
  "merge_sheet ws0 new_rows =
     (let max_cols_to_check = (if 0 < max_column ws0 then max (max_column ws0) 100 else 100);
          ws = ws0\<lparr>max_row := max (max_row ws0) 2,
                   max_column := max (max_column ws0) max_cols_to_check\<rparr>;
          row2 = header_columns_of ws 2 max_cols_to_check;
          header_row = (if row2 = [] then 1 else 2);
          column_map = (if row2 = [] then header_columns_of ws 1 max_cols_to_check else row2);
          id_patient_col = map_of column_map id_patient_name;
          oeil_col = map_of column_map oeil_name;
          last_data_row = last_data_row_of ws column_map header_row;
          first_available_row =
            first_available_row_of ws id_patient_col oeil_col header_row last_data_row;
          filtered_rows =
            filter_rows (existing_keys_of ws id_patient_col oeil_col header_row) new_rows
      in write_rows column_map first_available_row filtered_rows ws)"

text \<open>The data rows of a sheet whose header is in row 2 with the patient identifier in
  column 1 and the eye side in column 2: the keys of the rows below the header.\<close>

definition data_keys :: "worksheet \<Rightarrow> (string \<times> string) list" where
  "data_keys ws = existing_keys_of ws (Some 1) (Some 2) 2"

definition header_only_sheet :: worksheet where
  "header_only_sheet =
     \<lparr>cells = [((2, 1), XStr id_patient_name), ((2, 2), XStr oeil_name)],
      max_row = 2, max_column = 2\<rparr>"

definition patient_007 :: xl_row where
  "patient_007 = [(id_patient_name, ''007''), (oeil_name, ''OD''), (''AL'', ''23.50'')]"

definition patient_42 :: xl_row where
  "patient_42 = [(id_patient_name, ''42''), (oeil_name, ''OD''), (''AL'', ''23.50'')]"

section \<open>Notions used in the statements\<close>

text \<open>\<open>some_table_data tables\<close>: the report has a table and the pass over the tables
  left at least one of the two accumulators non-empty.\<close>

definition some_table_data :: "table list \<Rightarrow> bool" where
  "some_table_data tables =
     (tables \<noteq> []
      \<and> (fst (table_accumulators tables) \<noteq> [] \<or> snd (table_accumulators tables) \<noteq> []))"

text \<open>\<open>keeps d d'\<close>: every value written in \<open>d\<close> is still the value of its key in
  \<open>d'\<close>.\<close>

definition keeps :: "eye_data \<Rightarrow> eye_data \<Rightarrow> bool" where
  "keeps d d' = (\<forall>k v. map_of d k = Some v \<longrightarrow> map_of d' k = Some v)"

definition od_marker :: "cell \<Rightarrow> bool" where
  "od_marker c =
     (contains ''OD'' (upper (cell_str c)) \<and> \<not> contains ''OS'' (upper (cell_str c)))"

definition os_marker :: "cell \<Rightarrow> bool" where
  "os_marker c =
     (contains ''OS'' (upper (cell_str c)) \<and> \<not> contains ''OD'' (upper (cell_str c)))"

text \<open>\<open>first_at P xs i\<close>: \<open>i\<close> is the index of the first element of \<open>xs\<close> with \<open>P\<close>.\<close>

definition first_at :: "('a \<Rightarrow> bool) \<Rightarrow> 'a list \<Rightarrow> nat \<Rightarrow> bool" where
  "first_at P xs i = (i < length xs \<and> P (xs ! i) \<and> (\<forall>j<i. \<not> P (xs ! j)))"

definition keeps_acc :: "acc \<Rightarrow> acc \<Rightarrow> bool" where
  "keeps_acc a a' = (keeps (fst a) (fst a') \<and> keeps (snd a) (snd a'))"

fun first_index_from :: "('a \<Rightarrow> bool) \<Rightarrow> nat \<Rightarrow> 'a list \<Rightarrow> nat option" where
  "first_index_from P n [] = None"
| "first_index_from P n (x # xs) = (if P x then Some n else first_index_from P (Suc n) xs)"

text \<open>The separator of a date format, and the characters a day, month or year token
  can hold.\<close>

definition sep_of :: "date_format \<Rightarrow> char" where
  "sep_of fmt = (case fmt of DMY sep k \<Rightarrow> sep | YMD sep \<Rightarrow> sep)"

definition token_char :: "char \<Rightarrow> bool" where
  "token_char c = (is_digit c \<or> c = CHR '' '')"

text \<open>\<open>is_header r\<close>: the row is not empty and names an eye; the header row of a table
  is its first such row.\<close>

definition is_header :: "row \<Rightarrow> bool" where
  "is_header r = (r \<noteq> [] \<and> (contains ''OD'' (row_text r) \<or> contains ''OS'' (row_text r)))"

text \<open>The inputs of the examples: a search that finds nothing, as on a report without
  text, and a current date.\<close>

definition no_match :: regex_search where
  "no_match p s = None"

definition new_year_2024 :: date where
  "new_year_2024 = \<lparr>year = 2024, month = 1, day = 1\<rparr>"

text \<open>A report of one page and one table, where only the right eye has a value.\<close>

definition od_only_table :: table where
  "od_only_table = [[Some ''OD''], [Some ''AL: 23.50mm'']]"

definition od_only_report :: "page list" where
  "od_only_report = [\<lparr>page_tables = [od_only_table], page_text = None\<rparr>]"

text \<open>A table without \<open>LABEL:\<close> cells, read by the per-table fallback only.\<close>

definition overwrite_table :: table where
  "overwrite_table = [[Some ''OD AL'', Some ''23.5'', None, None],
                      [Some ''OD AL'', Some ''24.5'', None, None]]"

text \<open>A table with the header in row 0, then \<open>n\<close> rows without text, then one
  measurement of the right eye in row \<open>n + 1\<close>.\<close>

definition late_table :: "nat \<Rightarrow> table" where
  "late_table n = [Some ''OD''] # replicate n [None] @ [[Some ''AL: 23.50mm'']]"

text \<open>A header row whose first cell names both eyes.\<close>

definition combined_header :: row where
  "combined_header = [Some ''OD/OS'', Some ''OD'', Some ''OS'']"

section \<open>Properties of the value normalizer\<close>

lemma comma_to_dot_map: "comma_to_dot s = map (\<lambda>c. if c = CHR '','' then CHR ''.'' else c) s"
  unfolding comma_to_dot_def by (induction s) auto

lemma numbers_acc_chars:
  "\<forall>c\<in>set cur. is_num_char c \<Longrightarrow> t \<in> set (numbers_acc cur s) \<Longrightarrow> \<forall>c\<in>set t. is_num_char c"
proof (induction s arbitrary: cur)
  case Nil
  then show ?case by (simp split: if_splits)
next
  case (Cons x xs)
  show ?case
  proof (cases "is_num_char x")
    case True
    with Cons.prems have "t \<in> set (numbers_acc (cur @ [x]) xs)" by simp
    moreover have "\<forall>c\<in>set (cur @ [x]). is_num_char c" using True Cons.prems(1) by simp
    ultimately show ?thesis using Cons.IH by blast
  next
    case False
    have e: "\<forall>c\<in>set ([]::string). is_num_char c" by simp
    from False Cons.prems(2) have "t = cur \<or> t \<in> set (numbers_acc [] xs)"
      by (simp split: if_splits)
    then show ?thesis using Cons.prems(1) Cons.IH [OF e] by blast
  qed
qed

lemma findall_numbers_chars: "t \<in> set (findall_numbers s) \<Longrightarrow> \<forall>c\<in>set t. is_num_char c"
  unfolding findall_numbers_def using numbers_acc_chars [of "[]"] by simp

lemma strip_no_space: "\<forall>c\<in>set s. \<not> is_space c \<Longrightarrow> strip s = s"
proof -
  assume a: "\<forall>c\<in>set s. \<not> is_space c"
  have "dropWhile is_space s = s" using a by (cases s) auto
  moreover have "dropWhile is_space (rev s) = rev s" using a by (cases "rev s") auto
  ultimately show ?thesis by (simp add: strip_def)
qed

lemma num_char_not_space: "is_num_char c \<Longrightarrow> \<not> is_space c"
  by (auto simp: is_num_char_def is_space_def is_digit_def)

lemma comma_to_dot_chars:
  "\<forall>c\<in>set t. is_num_char c \<Longrightarrow> c \<in> set (comma_to_dot t) \<Longrightarrow> is_num_char c"
proof -
  assume a: "\<forall>c\<in>set t. is_num_char c" and c: "c \<in> set (comma_to_dot t)"
  from c obtain x where x: "x \<in> set t" "c = (if x = CHR '','' then CHR ''.'' else x)"
    by (auto simp: comma_to_dot_map)
  show "is_num_char c"
  proof (cases "x = CHR '',''")
    case True
    with x show ?thesis by (simp add: is_num_char_def)
  next
    case False
    with x a show ?thesis by simp
  qed
qed

lemma strip_token: "\<forall>c\<in>set t. is_num_char c \<Longrightarrow> strip (comma_to_dot t) = comma_to_dot t"
  using comma_to_dot_chars [of t] num_char_not_space strip_no_space [of "comma_to_dot t"]
  by blast

lemma plausible_token:
  "t \<in> set (findall_numbers s) \<Longrightarrow> plausible t = in_range (comma_to_dot t)"
  using findall_numbers_chars [of t s] strip_token [of t] by (simp add: plausible_def)

lemma first_plausible_char:
  "(\<exists>i<length ts. plausible (ts ! i) \<and> (\<forall>j<i. \<not> plausible (ts ! j))
        \<and> first_plausible ts = strip (comma_to_dot (ts ! i)))
   \<or> ((\<forall>t\<in>set ts. \<not> plausible t) \<and> first_plausible ts = [])"
proof (induction ts)
  case Nil
  then show ?case by simp
next
  case (Cons t ts)
  show ?case
  proof (cases "plausible t")
    case True
    then have "0 < length (t # ts) \<and> plausible ((t # ts) ! 0) \<and> (\<forall>j<0. \<not> plausible ((t # ts) ! j))
        \<and> first_plausible (t # ts) = strip (comma_to_dot ((t # ts) ! 0))" by simp
    then show ?thesis by blast
  next
    case False
    from Cons.IH show ?thesis
    proof
      assume "\<exists>i<length ts. plausible (ts ! i) \<and> (\<forall>j<i. \<not> plausible (ts ! j))
        \<and> first_plausible ts = strip (comma_to_dot (ts ! i))"
      then obtain i where i: "i < length ts" "plausible (ts ! i)" "\<forall>j<i. \<not> plausible (ts ! j)"
        "first_plausible ts = strip (comma_to_dot (ts ! i))" by blast
      have "\<forall>j<Suc i. \<not> plausible ((t # ts) ! j)"
        using False i(3) by (auto simp: less_Suc_eq_0_disj)
      with i False have "Suc i < length (t # ts) \<and> plausible ((t # ts) ! Suc i)
          \<and> (\<forall>j<Suc i. \<not> plausible ((t # ts) ! j))
          \<and> first_plausible (t # ts) = strip (comma_to_dot ((t # ts) ! Suc i))" by simp
      then show ?thesis by blast
    next
      assume "(\<forall>t\<in>set ts. \<not> plausible t) \<and> first_plausible ts = []"
      with False show ?thesis by simp
    qed
  qed
qed

lemma first_plausible_tokens:
  "(\<exists>i<length (findall_numbers s).
        in_range (comma_to_dot (findall_numbers s ! i))
      \<and> (\<forall>j<i. \<not> in_range (comma_to_dot (findall_numbers s ! j)))
      \<and> first_plausible (findall_numbers s) = comma_to_dot (findall_numbers s ! i))
   \<or> ((\<forall>t\<in>set (findall_numbers s). \<not> in_range (comma_to_dot t))
        \<and> first_plausible (findall_numbers s) = [])"
proof -
  let ?ts = "findall_numbers s"
  have tok: "plausible (?ts ! i) = in_range (comma_to_dot (?ts ! i))" if "i < length ?ts" for i
    using that plausible_token [of "?ts ! i" s] by simp
  have str: "strip (comma_to_dot (?ts ! i)) = comma_to_dot (?ts ! i)" if "i < length ?ts" for i
    using that findall_numbers_chars [of "?ts ! i" s] strip_token [of "?ts ! i"] by simp
  from first_plausible_char [of ?ts] show ?thesis
  proof
    assume "\<exists>i<length ?ts. plausible (?ts ! i) \<and> (\<forall>j<i. \<not> plausible (?ts ! j))
        \<and> first_plausible ?ts = strip (comma_to_dot (?ts ! i))"
    then obtain i where i: "i < length ?ts" "plausible (?ts ! i)" "\<forall>j<i. \<not> plausible (?ts ! j)"
        "first_plausible ?ts = strip (comma_to_dot (?ts ! i))" by blast
    have "\<forall>j<i. \<not> in_range (comma_to_dot (?ts ! j))"
      using i(1) i(3) tok by (metis less_trans)
    moreover have "in_range (comma_to_dot (?ts ! i))" using i(1) i(2) tok by blast
    moreover have "first_plausible ?ts = comma_to_dot (?ts ! i)" using i(1) i(4) str by simp
    ultimately show ?thesis using i(1) by blast
  next
    assume a: "(\<forall>t\<in>set ?ts. \<not> plausible t) \<and> first_plausible ?ts = []"
    then have "\<forall>t\<in>set ?ts. \<not> in_range (comma_to_dot t)"
      using plausible_token [of _ s] by blast
    with a show ?thesis by blast
  qed
qed

lemma prefix_contains: "prefix p s \<Longrightarrow> contains p s"
  by (cases s) auto

lemma search_first_absent:
  "\<not> contains label s \<Longrightarrow> (\<And>u. \<not> prefix label u \<Longrightarrow> m u = None) \<Longrightarrow> search_first m s = None"
proof (induction s)
  case Nil
  then show ?case using prefix_contains [of label "[]"] by auto
next
  case (Cons c s)
  then show ?case by auto
qed

lemma capture_absent1:
  "\<not> contains label s \<Longrightarrow> capture_value (match_pattern1 label) s = None"
  using search_first_absent [of label s "match_pattern1 label"]
  by (simp add: capture_value_def match_pattern1_def)

lemma capture_absent2:
  "\<not> contains label s \<Longrightarrow> capture_value (match_pattern2 label) s = None"
  using search_first_absent [of label s "match_pattern2 label"]
  by (simp add: capture_value_def match_pattern2_def)

lemma extract_value_no_label:
  "\<not> contains label (upper text)
   \<Longrightarrow> extract_value_from_text text label = first_plausible (findall_numbers text)"
  by (simp add: extract_value_from_text_def capture_absent1 capture_absent2)

lemma in_range_24_18: "in_range ''24.18''"
proof -
  have "is_numeric ''24.18''" by code_simp
  moreover have "float_gt_half ''24.18''"
    by (simp add: float_gt_half_def digits_val_def frac_len_def is_digit_def digit_val_def)
  moreover have "float_lt_100 ''24.18''"
    by (simp add: float_lt_100_def digits_val_def frac_len_def is_digit_def digit_val_def)
  ultimately show ?thesis by (simp add: in_range_def)
qed

lemma plausible_24_18: "plausible ''24,18''" and plausible_24_18_dot: "plausible ''24.18''"
proof -
  have "strip (comma_to_dot ''24,18'') = ''24.18''" by code_simp
  then show "plausible ''24,18''" using in_range_24_18 by (simp add: plausible_def)
  have "strip (comma_to_dot ''24.18'') = ''24.18''" by code_simp
  then show "plausible ''24.18''" using in_range_24_18 by (simp add: plausible_def)
qed

lemma last_strategy_examples:
  "first_plausible (findall_numbers ''24,18mm'') = ''24.18''"
  "first_plausible (findall_numbers ''24.18 D'') = ''24.18''"
  "first_plausible (findall_numbers ''abc'') = []"
proof -
  have "findall_numbers ''24,18mm'' = [''24,18'']" by code_simp
  moreover have "strip (comma_to_dot ''24,18'') = ''24.18''" by code_simp
  ultimately show "first_plausible (findall_numbers ''24,18mm'') = ''24.18''"
    using plausible_24_18 by simp
  have "findall_numbers ''24.18 D'' = [''24.18'']" by code_simp
  moreover have "strip (comma_to_dot ''24.18'') = ''24.18''" by code_simp
  ultimately show "first_plausible (findall_numbers ''24.18 D'') = ''24.18''"
    using plausible_24_18_dot by simp
  have "findall_numbers ''abc'' = []" by code_simp
  then show "first_plausible (findall_numbers ''abc'') = []" by simp
qed

lemma labels_absent:
  "l \<in> fst ` set meas_labels \<Longrightarrow>
     \<not> contains l (upper ''24,18mm'') \<and> \<not> contains l (upper ''24.18 D'')
     \<and> \<not> contains l (upper ''abc'')"
proof -
  assume "l \<in> fst ` set meas_labels"
  then have "l \<in> set [''AL'', ''CCT'', ''ACD'', ''LT'', ''K1'', ''K2'', ''WTW'']"
    by (simp add: meas_labels_def)
  moreover have "\<forall>l\<in>set [''AL'', ''CCT'', ''ACD'', ''LT'', ''K1'', ''K2'', ''WTW''].
     \<not> contains l (upper ''24,18mm'') \<and> \<not> contains l (upper ''24.18 D'')
     \<and> \<not> contains l (upper ''abc'')" by code_simp
  ultimately show ?thesis by blast
qed

text \<open>
  C6. When neither the strict capture \<open>label [:=] number\<close> nor the lazy capture
  \<open>label ... number\<close> gives a numeric value, the normalizer returns the first token of
  \<open>[\d,\.]+\<close> in the text whose value, commas read as dots, is a number that Python
  finds above 0.5 and below 100, with its commas turned into dots, and the empty string
  when no token qualifies. For each measurement label, \<open>24,18mm\<close> and \<open>24.18 D\<close> give
  \<open>24.18\<close> and \<open>abc\<close> gives the empty string.
\<close>

theorem extract_value_last_strategy:
  "(capture_value (match_pattern1 label) (upper text) = None
      \<and> capture_value (match_pattern2 label) (upper text) = None
    \<longrightarrow> (\<exists>i<length (findall_numbers text).
             in_range (comma_to_dot (findall_numbers text ! i))
           \<and> (\<forall>j<i. \<not> in_range (comma_to_dot (findall_numbers text ! j)))
           \<and> extract_value_from_text text label = comma_to_dot (findall_numbers text ! i))
        \<or> ((\<forall>t\<in>set (findall_numbers text). \<not> in_range (comma_to_dot t))
             \<and> extract_value_from_text text label = []))
   \<and> (\<forall>l\<in>fst ` set meas_labels.
         extract_value_from_text ''24,18mm'' l = ''24.18''
       \<and> extract_value_from_text ''24.18 D'' l = ''24.18''
       \<and> extract_value_from_text ''abc'' l = [])"
proof (intro conjI impI ballI)
  assume "capture_value (match_pattern1 label) (upper text) = None
      \<and> capture_value (match_pattern2 label) (upper text) = None"
  then have "extract_value_from_text text label = first_plausible (findall_numbers text)"
    by (simp add: extract_value_from_text_def)
  then show "(\<exists>i<length (findall_numbers text).
             in_range (comma_to_dot (findall_numbers text ! i))
           \<and> (\<forall>j<i. \<not> in_range (comma_to_dot (findall_numbers text ! j)))
           \<and> extract_value_from_text text label = comma_to_dot (findall_numbers text ! i))
        \<or> ((\<forall>t\<in>set (findall_numbers text). \<not> in_range (comma_to_dot t))
             \<and> extract_value_from_text text label = [])"
    using first_plausible_tokens [of "text"] by simp
next
  fix l assume l: "l \<in> fst ` set meas_labels"
  show "extract_value_from_text ''24,18mm'' l = ''24.18''"
    using labels_absent [OF l] extract_value_no_label [of l "''24,18mm''"]
    by (simp add: last_strategy_examples)
  show "extract_value_from_text ''24.18 D'' l = ''24.18''"
    using labels_absent [OF l] extract_value_no_label [of l "''24.18 D''"]
    by (simp add: last_strategy_examples)
  show "extract_value_from_text ''abc'' l = []"
    using labels_absent [OF l] extract_value_no_label [of l "''abc''"]
    by (simp add: last_strategy_examples)
qed

theorem extract_value_last_strategy_witness:
  "capture_value (match_pattern1 ''AL'') (upper ''0,3 24,18mm'') = None
   \<and> capture_value (match_pattern2 ''AL'') (upper ''0,3 24,18mm'') = None
   \<and> ''AL'' \<in> fst ` set meas_labels
   \<and> ((\<exists>i<length (findall_numbers ''0,3 24,18mm'').
             in_range (comma_to_dot (findall_numbers ''0,3 24,18mm'' ! i))
           \<and> (\<forall>j<i. \<not> in_range (comma_to_dot (findall_numbers ''0,3 24,18mm'' ! j)))
           \<and> extract_value_from_text ''0,3 24,18mm'' ''AL''
               = comma_to_dot (findall_numbers ''0,3 24,18mm'' ! i))
        \<or> ((\<forall>t\<in>set (findall_numbers ''0,3 24,18mm''). \<not> in_range (comma_to_dot t))
             \<and> extract_value_from_text ''0,3 24,18mm'' ''AL'' = []))
   \<and> extract_value_from_text ''24,18mm'' ''AL'' = ''24.18''
   \<and> extract_value_from_text ''abc'' ''AL'' = []"
proof -
  have h1: "capture_value (match_pattern1 ''AL'') (upper ''0,3 24,18mm'') = None" by code_simp
  have h2: "capture_value (match_pattern2 ''AL'') (upper ''0,3 24,18mm'') = None" by code_simp
  have h3: "''AL'' \<in> fst ` set meas_labels" by (simp add: meas_labels_def)
  show ?thesis
    using h1 h2 h3 extract_value_last_strategy [of "''AL''" "''0,3 24,18mm''"] by blast
qed

section \<open>Properties of the records\<close>

lemma map_of_dict_set:
  "map_of (dict_set k v d) k' = (if k' = k then Some v else map_of d k')"
  by (simp add: dict_set_def update_conv')

lemma has_key_dict_set: "has_key (dict_set k v d) k' = (k' = k \<or> has_key d k')"
  by (simp add: has_key_def map_of_dict_set)

lemma dict_set_nonempty: "dict_set k v d \<noteq> []"
  by (cases d) (auto simp: dict_set_def)

lemma map_of_set_if_absent:
  "map_of (set_if_absent k v d) k' =
     (if k' = k \<and> \<not> has_key d k then Some v else map_of d k')"
  by (simp add: set_if_absent_def map_of_dict_set)

lemma has_key_set_if_absent: "has_key (set_if_absent k v d) k' = (k' = k \<or> has_key d k')"
  by (auto simp: set_if_absent_def has_key_dict_set)

lemma set_if_absent_nonempty: "d \<noteq> [] \<Longrightarrow> set_if_absent k v d \<noteq> []"
  by (simp add: set_if_absent_def dict_set_nonempty)

lemma has_key_ensure_keys:
  "has_key (ensure_keys d) k = (k = K1 \<or> k = K2 \<or> k = Axe \<or> has_key d k)"
  by (auto simp: ensure_keys_def has_key_set_if_absent)

lemma map_of_ensure_keys_other:
  "k \<noteq> K1 \<Longrightarrow> k \<noteq> K2 \<Longrightarrow> k \<noteq> Axe \<Longrightarrow> map_of (ensure_keys d) k = map_of d k"
  by (simp add: ensure_keys_def map_of_set_if_absent)

lemma ensure_keys_nonempty: "d \<noteq> [] \<Longrightarrow> ensure_keys d \<noteq> []"
  by (simp add: ensure_keys_def set_if_absent_nonempty)

lemma finalize_table_eye: "map_of (finalize_table e p a d) Oeil = Some e"
  by (simp add: finalize_table_def attach_identity_def map_of_ensure_keys_other map_of_dict_set)

lemma finalize_table_nonempty: "finalize_table e p a d \<noteq> []"
  by (simp add: finalize_table_def attach_identity_def ensure_keys_nonempty dict_set_nonempty)

lemma has_key_finalize_table:
  "has_key (finalize_table e p a d) k =
     (k = Oeil \<or> k = ID_Patient \<or> k = Age \<or> k = K1 \<or> k = K2 \<or> k = Axe \<or> has_key d k)"
proof (cases "d = []")
  case True
  then show ?thesis by (auto simp: finalize_table_def has_key_def)
next
  case False
  then show ?thesis
    by (auto simp: finalize_table_def attach_identity_def has_key_ensure_keys has_key_dict_set)
qed

lemma text_record_eye: "map_of (text_record rx t p a e) Oeil = Some (eye_name e)"
  by (simp add: text_record_def map_of_ensure_keys_other map_of_dict_set)

lemma has_key_text_record: "has_key (text_record rx t p a e) k"
  by (cases k)
     (simp_all add: text_record_def extract_eye_data_def has_key_ensure_keys has_key_dict_set)

text \<open>The two branches of \<open>parse\<close>.\<close>

lemma parse_from_tables:
  "some_table_data (all_tables pages) \<Longrightarrow>
   parse rx today pages =
     [finalize_table ''OD'' (report_patient_id rx pages) (report_age rx today pages)
        (fst (table_accumulators (all_tables pages))),
      finalize_table ''OS'' (report_patient_id rx pages) (report_age rx today pages)
        (snd (table_accumulators (all_tables pages)))]"
  by (simp add: parse_def some_table_data_def extract_from_tables_def Let_def
      finalize_table_nonempty)

lemma parse_from_text:
  "\<not> some_table_data (all_tables pages) \<Longrightarrow>
   parse rx today pages =
     [text_record rx (full_text_of pages) (report_patient_id rx pages)
        (report_age rx today pages) OD,
      text_record rx (full_text_of pages) (report_patient_id rx pages)
        (report_age rx today pages) OS]"
  by (auto simp: parse_def some_table_data_def extract_from_tables_def Let_def)

text \<open>
  C1. \<open>parse\<close> returns exactly two records, on the table path and on the text path
  alike: the first has eye side \<open>OD\<close>, the second \<open>OS\<close>.
\<close>

theorem parse_two_records:
  "\<exists>od_data os_data.
      parse rx today pages = [od_data, os_data]
    \<and> map_of od_data Oeil = Some ''OD''
    \<and> map_of os_data Oeil = Some ''OS''"
proof (cases "some_table_data (all_tables pages)")
  case True
  then show ?thesis using parse_from_tables [of pages rx today]
    by (simp add: finalize_table_eye)
next
  case False
  then show ?thesis using parse_from_text [of pages rx today]
    by (simp add: text_record_eye eye_name_def)
qed

lemma od_only_accumulators:
  "table_accumulators (all_tables od_only_report) = ([(AL, ''23.50'')], [])"
  by code_simp

lemma od_only_parse:
  "parse no_match new_year_2024 od_only_report =
     [[(AL, ''23.50''), (Oeil, ''OD''), (ID_Patient, []), (Age, []),
       (K1, []), (K2, []), (Axe, [])],
      [(Oeil, ''OS''), (ID_Patient, []), (Age, []), (K1, []), (K2, []), (Axe, [])]]"
  by code_simp

lemma od_only_some_data: "some_table_data (all_tables od_only_report)"
  using od_only_accumulators by (simp add: some_table_data_def all_tables_def od_only_report_def)

lemma empty_report_no_data: "\<not> some_table_data (all_tables [])"
  by (simp add: some_table_data_def all_tables_def)

text \<open>
  C2, as the code has it. Both records always hold the keys \<open>ID Patient\<close>, \<open>Age\<close>,
  \<open>Oeil\<close>, \<open>K1\<close>, \<open>K2\<close> and \<open>Axe\<close>. When the text fallback builds the records they
  hold all eleven keys. When the tables build them, each of the other five keys is in
  a record exactly when the table pass wrote it into that eye's accumulator.
\<close>

theorem parse_keys:
  "(\<forall>r\<in>set (parse rx today pages).
       has_key r ID_Patient \<and> has_key r Age \<and> has_key r Oeil
     \<and> has_key r K1 \<and> has_key r K2 \<and> has_key r Axe)
   \<and> (\<not> some_table_data (all_tables pages)
        \<longrightarrow> (\<forall>r\<in>set (parse rx today pages). \<forall>k. has_key r k))
   \<and> (some_table_data (all_tables pages)
        \<longrightarrow> (\<forall>k\<in>{AL, PACHY, ACD_epit, LT, WTW}.
               has_key (parse rx today pages ! 0) k
                 = has_key (fst (table_accumulators (all_tables pages))) k
             \<and> has_key (parse rx today pages ! 1) k
                 = has_key (snd (table_accumulators (all_tables pages))) k))"
proof (cases "some_table_data (all_tables pages)")
  case True
  then show ?thesis using parse_from_tables [of pages rx today]
    by (simp add: has_key_finalize_table)
next
  case False
  then show ?thesis using parse_from_text [of pages rx today]
    by (auto simp: has_key_text_record)
qed

theorem parse_keys_witness:
  "some_table_data (all_tables od_only_report)
   \<and> has_key (parse no_match new_year_2024 od_only_report ! 0) AL
   \<and> \<not> has_key (parse no_match new_year_2024 od_only_report ! 1) AL
   \<and> has_key (parse no_match new_year_2024 od_only_report ! 1) K1
   \<and> \<not> some_table_data (all_tables [])
   \<and> (\<forall>k. has_key (parse no_match new_year_2024 [] ! 0) k)"
proof -
  have "has_key (fst (table_accumulators (all_tables od_only_report))) AL"
       "\<not> has_key (snd (table_accumulators (all_tables od_only_report))) AL"
    by (simp_all add: od_only_accumulators has_key_def)
  moreover have "parse no_match new_year_2024 od_only_report ! 1
                   \<in> set (parse no_match new_year_2024 od_only_report)"
                "parse no_match new_year_2024 [] ! 0 \<in> set (parse no_match new_year_2024 [])"
    using parse_from_tables [OF od_only_some_data, of no_match new_year_2024]
      parse_from_text [OF empty_report_no_data, of no_match new_year_2024]
    by simp_all
  ultimately show ?thesis
    using od_only_some_data empty_report_no_data
      parse_keys [of no_match new_year_2024 od_only_report]
      parse_keys [of no_match new_year_2024 "[]"]
    by simp
qed

theorem parse_keys_counterexample:
  "\<not> has_key (parse no_match new_year_2024 od_only_report ! 0) PACHY"
  by (simp add: od_only_parse has_key_def)

text \<open>
  C4, as the code has it. \<open>parse\<close> returns the records of the tables exactly when the
  report has a table and at least one of the two accumulators is non-empty after all
  tables; an accumulator left empty then gives the default record of its eye. When the
  report has no table or both accumulators are empty, the text fallback gives both
  records.
\<close>

theorem parse_branches:
  "(some_table_data (all_tables pages) \<longrightarrow>
      parse rx today pages =
        [finalize_table ''OD'' (report_patient_id rx pages) (report_age rx today pages)
           (fst (table_accumulators (all_tables pages))),
         finalize_table ''OS'' (report_patient_id rx pages) (report_age rx today pages)
           (snd (table_accumulators (all_tables pages)))])
   \<and> (\<not> some_table_data (all_tables pages) \<longrightarrow>
      parse rx today pages =
        [text_record rx (full_text_of pages) (report_patient_id rx pages)
           (report_age rx today pages) OD,
         text_record rx (full_text_of pages) (report_patient_id rx pages)
           (report_age rx today pages) OS])
   \<and> finalize_table e p a [] = [(Oeil, e), (ID_Patient, p), (Age, a), (K1, []), (K2, []), (Axe, [])]"
  using parse_from_tables [of pages rx today] parse_from_text [of pages rx today]
  by (simp add: finalize_table_def)

theorem parse_branches_witness:
  "some_table_data (all_tables od_only_report)
   \<and> parse no_match new_year_2024 od_only_report =
        [finalize_table ''OD'' (report_patient_id no_match od_only_report)
           (report_age no_match new_year_2024 od_only_report)
           (fst (table_accumulators (all_tables od_only_report))),
         finalize_table ''OS'' (report_patient_id no_match od_only_report)
           (report_age no_match new_year_2024 od_only_report)
           (snd (table_accumulators (all_tables od_only_report)))]
   \<and> \<not> some_table_data (all_tables [])
   \<and> parse no_match new_year_2024 [] =
        [text_record no_match (full_text_of []) (report_patient_id no_match [])
           (report_age no_match new_year_2024 []) OD,
         text_record no_match (full_text_of []) (report_patient_id no_match [])
           (report_age no_match new_year_2024 []) OS]"
  using od_only_some_data empty_report_no_data
    parse_branches [of od_only_report no_match new_year_2024]
    parse_branches [of "[]" no_match new_year_2024]
  by simp

theorem parse_branches_counterexample:
  "snd (table_accumulators (all_tables od_only_report)) = []
   \<and> parse no_match new_year_2024 od_only_report \<noteq>
        [text_record no_match (full_text_of od_only_report)
           (report_patient_id no_match od_only_report)
           (report_age no_match new_year_2024 od_only_report) OD,
         text_record no_match (full_text_of od_only_report)
           (report_patient_id no_match od_only_report)
           (report_age no_match new_year_2024 od_only_report) OS]"
proof -
  have "has_key (text_record no_match (full_text_of od_only_report)
           (report_patient_id no_match od_only_report)
           (report_age no_match new_year_2024 od_only_report) OS) AL"
    by (rule has_key_text_record)
  moreover have "\<not> has_key (parse no_match new_year_2024 od_only_report ! 1) AL"
    by (simp add: od_only_parse has_key_def)
  ultimately show ?thesis using od_only_accumulators by auto
qed

section \<open>Properties of the header scan\<close>

lemma first_at_Cons_hit: "P x \<Longrightarrow> first_at P (x # xs) i = (i = 0)"
proof
  assume p: "P x" and f: "first_at P (x # xs) i"
  show "i = 0"
  proof (rule ccontr)
    assume "i \<noteq> 0"
    then have "0 < i" by simp
    with f have "\<not> P ((x # xs) ! 0)" unfolding first_at_def by blast
    with p show False by simp
  qed
next
  assume "P x" and "i = 0"
  then show "first_at P (x # xs) i" by (simp add: first_at_def)
qed

lemma first_at_Cons_miss:
  "\<not> P x \<Longrightarrow> first_at P (x # xs) i = (\<exists>i'. i = Suc i' \<and> first_at P xs i')"
proof
  assume np: "\<not> P x" and f: "first_at P (x # xs) i"
  from f np have "i \<noteq> 0" unfolding first_at_def by (cases i) auto
  then obtain i' where i': "i = Suc i'" by (cases i) auto
  have "first_at P xs i'" unfolding first_at_def
  proof (intro conjI allI impI)
    show "i' < length xs" using f i' by (simp add: first_at_def)
    show "P (xs ! i')" using f i' by (simp add: first_at_def)
    fix j assume "j < i'"
    then have "Suc j < i" using i' by simp
    with f have "\<not> P ((x # xs) ! Suc j)" unfolding first_at_def by blast
    then show "\<not> P (xs ! j)" by simp
  qed
  with i' show "\<exists>i'. i = Suc i' \<and> first_at P xs i'" by blast
next
  assume np: "\<not> P x" and "\<exists>i'. i = Suc i' \<and> first_at P xs i'"
  then obtain i' where i': "i = Suc i'" "first_at P xs i'" by blast
  show "first_at P (x # xs) i" unfolding first_at_def
  proof (intro conjI allI impI)
    show "i < length (x # xs)" using i' by (simp add: first_at_def)
    show "P ((x # xs) ! i)" using i' by (simp add: first_at_def)
    fix j assume j: "j < i"
    show "\<not> P ((x # xs) ! j)"
    proof (cases j)
      case 0
      with np show ?thesis by simp
    next
      case (Suc j')
      with j i' have "j' < i'" by simp
      with i'(2) have "\<not> P (xs ! j')" unfolding first_at_def by blast
      with Suc show ?thesis by simp
    qed
  qed
qed

lemma first_index_from_iff:
  "(first_index_from P n xs = Some m) = (\<exists>i. m = n + i \<and> first_at P xs i)"
proof (induction xs arbitrary: n)
  case Nil
  then show ?case by (simp add: first_at_def)
next
  case (Cons x xs)
  show ?case
  proof (cases "P x")
    case True
    then show ?thesis by (auto simp: first_at_Cons_hit)
  next
    case False
    then show ?thesis using Cons.IH [of "Suc n"] by (auto simp: first_at_Cons_miss)
  qed
qed

lemma no_marker_in_empty_cell:
  "\<not> cell_true c \<Longrightarrow> \<not> contains ''OD'' (upper (cell_str c)) \<and> \<not> contains ''OS'' (upper (cell_str c))"
  by (cases c) (auto simp: cell_true_def cell_str_def upper_def)

lemma scan_header_cells_eq:
  "scan_header_cells r n cs =
     ((case fst cs of None \<Rightarrow> first_index_from od_marker n r | Some x \<Rightarrow> Some x),
      (case snd cs of None \<Rightarrow> first_index_from os_marker n r | Some x \<Rightarrow> Some x))"
proof (induction r arbitrary: n cs)
  case Nil
  then show ?case by (cases cs) (auto split: option.splits)
next
  case (Cons c r)
  obtain a b where cs: "cs = (a, b)" by (cases cs)
  show ?case
  proof (cases "cell_true c")
    case False
    with no_marker_in_empty_cell [of c] have "\<not> od_marker c" "\<not> os_marker c"
      by (simp_all add: od_marker_def os_marker_def)
    with False show ?thesis using Cons.IH [of "Suc n" cs] by (simp split: option.splits)
  next
    case True
    define D where "D = contains ''OD'' (upper (cell_str c))"
    define S where "S = contains ''OS'' (upper (cell_str c))"
    have m: "od_marker c = (D \<and> \<not> S)" "os_marker c = (S \<and> \<not> D)"
      by (simp_all add: od_marker_def os_marker_def D_def S_def)
    have step: "scan_header_cells (c # r) n (a, b) =
       (if D \<and> \<not> S \<and> a = None then scan_header_cells r (Suc n) (Some n, b)
        else if S \<and> b = None
             then (if \<not> D then scan_header_cells r (Suc n) (a, Some n)
                   else scan_header_cells r (Suc n) (a, b))
             else scan_header_cells r (Suc n) (a, b))"
      using True by (simp add: Let_def D_def S_def)
    show ?thesis unfolding cs step using m
      by (cases D; cases S; cases a; cases b; simp add: Cons.IH)
  qed
qed

text \<open>
  C5, as the code has it. In the header row the OD column is the index of the first
  cell whose upper-cased text holds \<open>OD\<close> and not \<open>OS\<close>, and the OS column is the index
  of the first cell whose upper-cased text holds \<open>OS\<close> and not \<open>OD\<close>; a column stays
  unset when the row has no such cell.
\<close>

theorem header_columns:
  "(fst (scan_header_cells r 0 (None, None)) = Some i) = first_at od_marker r i
   \<and> (snd (scan_header_cells r 0 (None, None)) = Some i) = first_at os_marker r i"
  by (simp add: scan_header_cells_eq first_index_from_iff)

theorem header_columns_witness:
  "scan_header_cells combined_header 0 (None, None) = (Some 1, Some 2)
   \<and> first_at od_marker combined_header 1
   \<and> first_at os_marker combined_header 2"
proof -
  have e: "scan_header_cells combined_header 0 (None, None) = (Some 1, Some 2)"
    by code_simp
  show ?thesis
    using e header_columns [of combined_header 1] header_columns [of combined_header 2]
    by simp
qed

theorem header_columns_counterexample:
  "first_at (\<lambda>c. contains ''OS'' (upper (cell_str c))) combined_header 0
   \<and> snd (scan_header_cells combined_header 0 (None, None)) = Some 2"
proof -
  have "contains ''OS'' (upper (cell_str (combined_header ! 0)))" by code_simp
  moreover have "scan_header_cells combined_header 0 (None, None) = (Some 1, Some 2)"
    by code_simp
  ultimately show ?thesis by (simp add: first_at_def combined_header_def)
qed

section \<open>Properties of the accumulators\<close>

lemma keeps_refl: "keeps d d"
  by (simp add: keeps_def)

lemma keeps_trans: "keeps d d' \<Longrightarrow> keeps d' d'' \<Longrightarrow> keeps d d''"
  by (simp add: keeps_def)

lemma keeps_acc_refl: "keeps_acc a a"
  by (simp add: keeps_acc_def keeps_refl)

lemma keeps_acc_trans: "keeps_acc a a' \<Longrightarrow> keeps_acc a' a'' \<Longrightarrow> keeps_acc a a''"
  unfolding keeps_acc_def using keeps_trans by blast

lemma keeps_set_if_absent: "keeps d (set_if_absent k v d)"
  by (auto simp: keeps_def map_of_set_if_absent has_key_def)

lemma keeps_dict_set_new: "\<not> has_key d k \<Longrightarrow> keeps d (dict_set k v d)"
  by (auto simp: keeps_def map_of_dict_set has_key_def)

lemma keeps_nonempty: "keeps d d' \<Longrightarrow> d \<noteq> [] \<Longrightarrow> d' \<noteq> []"
proof -
  assume k: "keeps d d'" and "d \<noteq> []"
  then obtain x v rest where "d = (x, v) # rest" by (cases d) auto
  then have "map_of d x = Some v" by simp
  with k have "map_of d' x = Some v" unfolding keeps_def by blast
  then show "d' \<noteq> []" by auto
qed

lemma foldl_keeps: "(\<And>d x. keeps d (f d x)) \<Longrightarrow> keeps d (foldl f d xs)"
proof (induction xs arbitrary: d)
  case Nil
  then show ?case by (simp add: keeps_refl)
next
  case (Cons x xs)
  have "keeps d (f d x)" using Cons.prems by blast
  moreover have "keeps (f d x) (foldl f (f d x) xs)" using Cons.IH Cons.prems by blast
  ultimately show ?case using keeps_trans by simp
qed

lemma foldl_keeps_acc: "(\<And>a x. keeps_acc a (f a x)) \<Longrightarrow> keeps_acc a (foldl f a xs)"
proof (induction xs arbitrary: a)
  case Nil
  then show ?case by (simp add: keeps_acc_refl)
next
  case (Cons x xs)
  have "keeps_acc a (f a x)" using Cons.prems by blast
  moreover have "keeps_acc (f a x) (foldl f (f a x) xs)" using Cons.IH Cons.prems by blast
  ultimately show ?case using keeps_acc_trans by simp
qed

lemma write_by_column_keeps: "keeps_acc a (write_by_column od_col os_col col_idx k v a)"
  by (simp add: write_by_column_def keeps_acc_def keeps_set_if_absent keeps_refl)

lemma write_by_half_keeps: "keeps_acc a (write_by_half col_idx k v a)"
  by (simp add: write_by_half_def keeps_acc_def keeps_set_if_absent keeps_refl)

lemma inline_cell_keeps: "keeps_acc a (inline_cell od_col os_col a ic)"
proof (cases ic)
  case (Pair col_idx cell)
  show ?thesis
  proof (cases "cell_true cell")
    case False
    with Pair show ?thesis by (simp add: inline_cell_def keeps_acc_refl)
  next
    case True
    with Pair show ?thesis
      unfolding inline_cell_def
      by (simp, intro foldl_keeps_acc)
         (auto simp: Let_def write_by_column_keeps keeps_acc_refl)
  qed
qed

lemma multiline_cell_keeps: "keeps_acc a (multiline_cell a ic)"
proof (cases ic)
  case (Pair col_idx cell)
  show ?thesis
  proof (cases "cell_true cell \<and> contains [CHR 0x0A] (cell_str cell)
           \<and> 2 \<le> length (nonblank_lines (cell_str cell))")
    case False
    with Pair show ?thesis by (auto simp: multiline_cell_def keeps_acc_refl)
  next
    case True
    with Pair show ?thesis
      unfolding multiline_cell_def
      by (simp add: Let_def, intro foldl_keeps_acc)
         (auto simp: Let_def write_by_half_keeps keeps_acc_refl)
  qed
qed

lemma column_cell_keeps: "keeps d (column_cell r col_idx cell d)"
proof (cases "cell_true cell")
  case False
  then show ?thesis by (simp add: column_cell_def keeps_refl)
next
  case True
  let ?step = "\<lambda>d (meas_label, excel_col).
                 if contains meas_label (upper (cell_str cell)) \<and> \<not> has_key d excel_col then
                   (let val = extract_value_from_text (cell_str cell) meas_label
                    in if val \<noteq> [] then dict_set excel_col val d else d)
                 else d"
  have step: "keeps d' (?step d' x)" for d' x
    by (cases x) (auto simp: Let_def keeps_dict_set_new keeps_refl)
  have d1: "keeps d (foldl ?step d meas_labels)"
    by (rule foldl_keeps) (rule step)
  have "keeps (foldl ?step d meas_labels) (column_cell r col_idx cell d)"
    using True by (simp add: column_cell_def Let_def keeps_dict_set_new keeps_refl)
  with d1 show ?thesis using keeps_trans by blast
qed

lemma column_pass_keeps: "keeps_acc a (column_pass r a ic)"
  by (cases ic) (simp add: column_pass_def keeps_acc_def column_cell_keeps keeps_refl)

lemma extract_row_keeps: "keeps_acc a (extract_row od_col os_col a r)"
proof (cases "r = []")
  case True
  then show ?thesis by (simp add: extract_row_def keeps_acc_refl)
next
  case False
  have 1: "keeps_acc a (foldl (inline_cell od_col os_col) a (enumerate 0 r))"
    by (rule foldl_keeps_acc) (rule inline_cell_keeps)
  have 2: "keeps_acc (foldl (inline_cell od_col os_col) a (enumerate 0 r))
             (foldl multiline_cell (foldl (inline_cell od_col os_col) a (enumerate 0 r))
                (enumerate 0 r))"
    by (rule foldl_keeps_acc) (rule multiline_cell_keeps)
  have 3: "keeps_acc
             (foldl multiline_cell (foldl (inline_cell od_col os_col) a (enumerate 0 r))
                (enumerate 0 r))
             (extract_row od_col os_col a r)"
    using False unfolding extract_row_def
    by (simp, intro foldl_keeps_acc) (rule column_pass_keeps)
  from 1 2 3 show ?thesis using keeps_acc_trans by blast
qed

lemma extract_structured_keeps: "keeps_acc a (extract_structured t a)"
proof (cases "find_header t")
  case None
  then show ?thesis by (simp add: extract_structured_def keeps_acc_refl)
next
  case (Some hc)
  then show ?thesis
    unfolding extract_structured_def
    by (cases hc) (simp add: Let_def, intro foldl_keeps_acc, rule extract_row_keeps)
qed

lemma keeps_acc_nonempty:
  "keeps_acc a a' \<Longrightarrow> fst a \<noteq> [] \<or> snd a \<noteq> [] \<Longrightarrow> fst a' \<noteq> [] \<or> snd a' \<noteq> []"
  unfolding keeps_acc_def using keeps_nonempty by blast

lemma extract_table_structured:
  "fst a \<noteq> [] \<or> snd a \<noteq> [] \<Longrightarrow> 2 \<le> length t \<Longrightarrow> extract_table a t = extract_structured t a"
  using keeps_acc_nonempty [OF extract_structured_keeps, of a t]
  by (auto simp: extract_table_def Let_def)

lemma extract_table_keeps:
  "fst a \<noteq> [] \<or> snd a \<noteq> [] \<Longrightarrow> keeps_acc a (extract_table a t)"
proof (cases "2 \<le> length t")
  case True
  assume "fst a \<noteq> [] \<or> snd a \<noteq> []"
  with True show ?thesis using extract_table_structured extract_structured_keeps by simp
next
  case False
  then show ?thesis by (simp add: extract_table_def keeps_acc_refl)
qed

lemma tables_keep:
  "fst a \<noteq> [] \<or> snd a \<noteq> [] \<Longrightarrow> keeps_acc a (foldl extract_table a tables)"
proof (induction tables arbitrary: a)
  case Nil
  then show ?case by (simp add: keeps_acc_refl)
next
  case (Cons t tables)
  have k: "keeps_acc a (extract_table a t)" using Cons.prems by (rule extract_table_keeps)
  then have "fst (extract_table a t) \<noteq> [] \<or> snd (extract_table a t) \<noteq> []"
    using Cons.prems keeps_acc_nonempty by blast
  then have "keeps_acc (extract_table a t) (foldl extract_table (extract_table a t) tables)"
    by (rule Cons.IH)
  with k show ?case using keeps_acc_trans by simp
qed

text \<open>
  C3, as the code has it. Every write of the header-based pass (the inline, multi-line
  and column patterns and the axis) is set-if-absent: the pass over a table keeps every
  value it finds in either accumulator. The per-table fallback branch runs only while
  both accumulators are empty; so once an accumulator is non-empty at the start of a
  table, that table is read by the header-based pass alone, and no later table changes
  a value already written.
\<close>

theorem first_writer_wins:
  "keeps_acc a (extract_row od_col os_col a r)
   \<and> keeps_acc a (extract_structured t a)
   \<and> (fst a \<noteq> [] \<or> snd a \<noteq> [] \<longrightarrow>
        (2 \<le> length t \<longrightarrow> extract_table a t = extract_structured t a)
      \<and> keeps_acc a (foldl extract_table a tables))
   \<and> (fst (table_accumulators ts) \<noteq> [] \<or> snd (table_accumulators ts) \<noteq> [] \<longrightarrow>
        keeps_acc (table_accumulators ts) (table_accumulators (ts @ tables)))"
  using extract_row_keeps extract_structured_keeps extract_table_structured
    tables_keep [of a tables] tables_keep [of "table_accumulators ts" tables]
  by (simp add: table_accumulators_def)

theorem first_writer_wins_witness:
  "table_accumulators [od_only_table] = ([(AL, ''23.50'')], [])
   \<and> map_of (fst (table_accumulators [od_only_table])) AL = Some ''23.50''
   \<and> keeps_acc (table_accumulators [od_only_table])
        (table_accumulators ([od_only_table] @ [overwrite_table]))
   \<and> map_of (fst (table_accumulators ([od_only_table] @ [overwrite_table]))) AL = Some ''23.50''"
proof -
  have e: "table_accumulators [od_only_table] = ([(AL, ''23.50'')], [])" by code_simp
  then have n: "fst (table_accumulators [od_only_table]) \<noteq> []
                  \<or> snd (table_accumulators [od_only_table]) \<noteq> []" by simp
  have k: "keeps_acc (table_accumulators [od_only_table])
             (table_accumulators ([od_only_table] @ [overwrite_table]))"
    using n first_writer_wins [where ts = "[od_only_table]" and tables = "[overwrite_table]"
        and a = "([], [])" and r = "[]" and t = "[]" and od_col = 0 and os_col = 4]
    by blast
  have "map_of (fst (table_accumulators [od_only_table])) AL = Some ''23.50''"
    using e by simp
  with k e show ?thesis unfolding keeps_acc_def keeps_def by blast
qed

theorem first_writer_wins_counterexample:
  "extract_structured overwrite_table ([], []) = ([], [])
   \<and> fallback_row overwrite_table ([], []) 0 = ([(AL, ''23.5'')], [])
   \<and> table_accumulators [overwrite_table] = ([(AL, ''24.5'')], [])"
  by code_simp

section \<open>Properties of the age computation\<close>

lemma digit_val_le: "is_digit c \<Longrightarrow> digit_val c \<le> 9"
  by (auto simp: is_digit_def digit_val_def)

lemma split_count:
  "length (split_on_acc sep cur s) = Suc (length (filter (\<lambda>c. c = sep) s))"
  by (induction s arbitrary: cur) auto

lemma split_grow: "\<exists>p\<in>set (split_on_acc sep cur ys). set cur \<subseteq> set p"
proof (induction ys arbitrary: cur)
  case Nil
  then show ?case by simp
next
  case (Cons a ys)
  show ?case
  proof (cases "a = sep")
    case True
    then show ?thesis by simp
  next
    case False
    obtain p where "p \<in> set (split_on_acc sep (cur @ [a]) ys)" "set (cur @ [a]) \<subseteq> set p"
      using Cons.IH by blast
    with False show ?thesis by auto
  qed
qed

lemma split_covers:
  "c \<in> set s \<Longrightarrow> c \<noteq> sep \<Longrightarrow> \<exists>p\<in>set (split_on_acc sep cur s). c \<in> set p"
proof (induction s arbitrary: cur)
  case Nil
  then show ?case by simp
next
  case (Cons x xs)
  show ?case
  proof (cases "x = sep")
    case True
    with Cons.prems have "c \<in> set xs" by auto
    then obtain p where "p \<in> set (split_on_acc sep [] xs)" "c \<in> set p"
      using Cons.IH Cons.prems(2) by blast
    with True show ?thesis by auto
  next
    case False
    note grow = split_grow
    show ?thesis
    proof (cases "c = x")
      case True
      obtain p where "p \<in> set (split_on_acc sep (cur @ [x]) xs)" "set (cur @ [x]) \<subseteq> set p"
        using grow by blast
      with True False show ?thesis by auto
    next
      case ne: False
      with Cons.prems have "c \<in> set xs" by auto
      then obtain p where "p \<in> set (split_on_acc sep (cur @ [x]) xs)" "c \<in> set p"
        using Cons.IH Cons.prems(2) by blast
      with False show ?thesis by auto
    qed
  qed
qed

lemma is_digit_lits:
  "is_digit CHR ''0''" "is_digit CHR ''1''" "is_digit CHR ''2''" "is_digit CHR ''3''"
  by (simp_all add: is_digit_def)

lemma parse_day_token:
  "parse_day a = Some d \<Longrightarrow> (\<forall>c\<in>set a. token_char c) \<and> length a \<le> 2"
  unfolding parse_day_def token_char_def
  by (auto split: list.splits if_splits simp: is_digit_lits)

lemma parse_month_token:
  "parse_month a = Some m \<Longrightarrow> (\<forall>c\<in>set a. token_char c) \<and> length a \<le> 2"
  unfolding parse_month_def token_char_def
  by (auto split: list.splits if_splits simp: is_digit_lits)

lemma parse_year_token:
  "parse_year k a = Some y \<Longrightarrow>
     (\<forall>c\<in>set a. token_char c) \<and> length a = (case k of Y4 \<Rightarrow> 4 | Y2 \<Rightarrow> 2)"
  unfolding parse_year_def token_char_def
  by (cases k) (auto split: if_splits simp: list_all_iff)

lemma strptime_parts:
  "strptime s fmt = Some bd \<Longrightarrow>
     \<exists>a b c. split_on_acc (sep_of fmt) [] s = [a, b, c]
       \<and> (\<forall>x\<in>set a \<union> set b \<union> set c. token_char x)
       \<and> (case fmt of
             DMY sep k \<Rightarrow> length a \<le> 2 \<and> length c = (case k of Y4 \<Rightarrow> 4 | Y2 \<Rightarrow> 2)
           | YMD sep \<Rightarrow> length a = 4)"
proof (cases fmt)
  case (DMY sep k)
  assume "strptime s fmt = Some bd"
  with DMY obtain a b c d m y where
    "split_on_acc sep [] s = [a, b, c]" "parse_day a = Some d" "parse_month b = Some m"
    "parse_year k c = Some y"
    by (auto simp: strptime_def split: list.splits option.splits)
  then show ?thesis
    using DMY parse_day_token [of a d] parse_month_token [of b m] parse_year_token [of k c y]
    by (auto simp: sep_of_def)
next
  case (YMD sep)
  assume "strptime s fmt = Some bd"
  with YMD obtain a b c d m y where
    "split_on_acc sep [] s = [a, b, c]" "parse_year Y4 a = Some y" "parse_month b = Some m"
    "parse_day c = Some d"
    by (auto simp: strptime_def split: list.splits option.splits)
  then show ?thesis
    using YMD parse_day_token [of c d] parse_month_token [of b m] parse_year_token [of Y4 a y]
    by (auto simp: sep_of_def)
qed

lemma strptime_same_sep:
  assumes "strptime s f = Some bd" and "strptime s f' = Some bd'"
    and "\<not> token_char (sep_of f')"
  shows "sep_of f = sep_of f'"
proof (rule ccontr)
  assume ne: "sep_of f \<noteq> sep_of f'"
  obtain a b c where p: "split_on_acc (sep_of f) [] s = [a, b, c]"
    "\<forall>x\<in>set a \<union> set b \<union> set c. token_char x"
    using strptime_parts [OF assms(1)] by blast
  obtain a' b' c' where p': "split_on_acc (sep_of f') [] s = [a', b', c']"
    using strptime_parts [OF assms(2)] by blast
  have "length (filter (\<lambda>c. c = sep_of f') s) = 2"
    using split_count [of "sep_of f'" "[]" s] p' by simp
  then have "filter (\<lambda>c. c = sep_of f') s \<noteq> []" by auto
  then have "sep_of f' \<in> set s" by (auto simp: filter_empty_conv)
  then obtain q where "q \<in> set (split_on_acc (sep_of f) [] s)" "sep_of f' \<in> set q"
    using split_covers [of "sep_of f'" s "sep_of f" "[]"] ne by auto
  with p have "token_char (sep_of f')" by auto
  with assms(3) show False by simp
qed

lemma strptime_unique:
  assumes "strptime s f = Some bd" and "strptime s f' = Some bd'"
    and "\<not> token_char (sep_of f)" and "\<not> token_char (sep_of f')"
  shows "f = f'"
proof -
  have sep: "sep_of f = sep_of f'" using strptime_same_sep [OF assms(1,2,4)] .
  obtain a b c where p: "split_on_acc (sep_of f) [] s = [a, b, c]"
    "case f of DMY sep k \<Rightarrow> length a \<le> 2 \<and> length c = (case k of Y4 \<Rightarrow> 4 | Y2 \<Rightarrow> 2)
             | YMD sep \<Rightarrow> length a = 4"
    using strptime_parts [OF assms(1)] by blast
  obtain a' b' c' where p': "split_on_acc (sep_of f') [] s = [a', b', c']"
    "case f' of DMY sep k \<Rightarrow> length a' \<le> 2 \<and> length c' = (case k of Y4 \<Rightarrow> 4 | Y2 \<Rightarrow> 2)
              | YMD sep \<Rightarrow> length a' = 4"
    using strptime_parts [OF assms(2)] by blast
  from p(1) p'(1) sep have eq: "a' = a" "c' = c" by simp_all
  show ?thesis
  proof (cases f)
    case f: (DMY sep1 k1)
    show ?thesis
    proof (cases f')
      case f': (DMY sep2 k2)
      with f p(2) p'(2) eq sep show ?thesis
        by (cases k1; cases k2) (auto simp: sep_of_def)
    next
      case f': (YMD sep2)
      with f p(2) p'(2) eq show ?thesis by auto
    qed
  next
    case f: (YMD sep1)
    show ?thesis
    proof (cases f')
      case f': (DMY sep2 k2)
      with f p(2) p'(2) eq show ?thesis by auto
    next
      case f': (YMD sep2)
      with f sep show ?thesis by (simp add: sep_of_def)
    qed
  qed
qed

lemma date_formats_sep: "fmt \<in> set date_formats \<Longrightarrow> \<not> token_char (sep_of fmt)"
  by (auto simp: date_formats_def sep_of_def token_char_def is_digit_def)

lemma two_digit_range:
  "two_digit_year fmt \<Longrightarrow> strptime s fmt = Some bd \<Longrightarrow> 1969 \<le> year bd \<and> year bd \<le> 2068"
proof -
  assume t: "two_digit_year fmt" and p: "strptime s fmt = Some bd"
  from t obtain sep where f: "fmt = DMY sep Y2"
    by (cases fmt) (auto simp: two_digit_year_def split: year_kind.splits)
  with p obtain a b c d m y where y: "parse_year Y2 c = Some y" "make_date y m d = Some bd"
    by (auto simp: strptime_def split: list.splits option.splits)
  from y(1) obtain u v where c: "c = [u, v]" "is_digit u" "is_digit v"
    by (cases c; cases "tl c") (auto simp: parse_year_def split: if_splits)
  have "digits_val c \<le> 99"
    using c digit_val_le [of u] digit_val_le [of v] by (simp add: digits_val_def)
  with y(1) have "1969 \<le> y \<and> y \<le> 2068" by (auto simp: parse_year_def split: if_splits)
  moreover from y(2) have "year bd = y" by (auto simp: make_date_def split: if_splits)
  ultimately show ?thesis by simp
qed

lemma parse_birth_date_only:
  "fmt \<in> set fs \<Longrightarrow> strptime s fmt = Some bd
   \<Longrightarrow> (\<forall>f\<in>set fs. f \<noteq> fmt \<longrightarrow> strptime s f = None)
   \<Longrightarrow> \<not> (two_digit_year fmt \<and> year bd < 1950)
   \<Longrightarrow> parse_birth_date fs s cur = Some bd"
proof (induction fs arbitrary: cur)
  case Nil
  then show ?case by simp
next
  case (Cons f fs)
  show ?case
  proof (cases "f = fmt")
    case True
    with Cons.prems show ?thesis by auto
  next
    case False
    with Cons.prems have "strptime s f = None" "fmt \<in> set fs" by auto
    with Cons show ?thesis by simp
  qed
qed

lemma parse_birth_date_format:
  "fmt \<in> set date_formats \<Longrightarrow> strptime s fmt = Some bd
   \<Longrightarrow> parse_birth_date date_formats s None = Some bd"
proof -
  assume f: "fmt \<in> set date_formats" and p: "strptime s fmt = Some bd"
  have others: "\<forall>f\<in>set date_formats. f \<noteq> fmt \<longrightarrow> strptime s f = None"
  proof (intro ballI impI)
    fix g assume g: "g \<in> set date_formats" "g \<noteq> fmt"
    show "strptime s g = None"
    proof (cases "strptime s g")
      case None
      then show ?thesis .
    next
      case (Some bd')
      then have "g = fmt"
        using strptime_unique [OF Some p] date_formats_sep f g(1) by blast
      with g(2) show ?thesis by simp
    qed
  qed
  have "\<not> (two_digit_year fmt \<and> year bd < 1950)" using two_digit_range [of fmt s bd] p by auto
  with f p others show ?thesis by (rule parse_birth_date_only)
qed

lemma parse_birth_date_none:
  "\<forall>f\<in>set fs. strptime s f = None \<Longrightarrow> parse_birth_date fs s cur = cur"
  by (induction fs arbitrary: cur) auto

lemma strptime_nonempty: "strptime s fmt = Some bd \<Longrightarrow> s \<noteq> []"
  by (cases fmt) (auto simp: strptime_def)

lemma dotted_examples:
  "strptime ''17.08.2010'' (DMY (CHR ''.'') Y4) = Some \<lparr>year = 2010, month = 8, day = 17\<rparr>"
  "strptime ''17.08.75'' (DMY (CHR ''.'') Y2) = Some \<lparr>year = 1975, month = 8, day = 17\<rparr>"
  "parse_birth_date date_formats ''17.08.75'' None = Some \<lparr>year = 1975, month = 8, day = 17\<rparr>"
  by code_simp+

text \<open>
  C7. When the birth-date string parses under one of the nine formats, the age is the
  current year minus the birth year, less one exactly when the current (month, day)
  comes before the birth (month, day). On 2024-01-01 the birth date \<open>17.08.2010\<close> gives
  \<open>13\<close> and \<open>17.08.2024\<close> gives \<open>-1\<close>. A string that no format parses, and the empty
  string, give the empty age.
\<close>

theorem age_rule:
  "(\<forall>fmt\<in>set date_formats. \<forall>bd. strptime s fmt = Some bd \<longrightarrow>
       calculate_age today s =
         str_int (int (year today) - int (year bd)
                  - (if month today < month bd
                        \<or> (month today = month bd \<and> day today < day bd)
                     then 1 else 0)))
   \<and> ((\<forall>fmt\<in>set date_formats. strptime s fmt = None) \<longrightarrow> calculate_age today s = [])
   \<and> calculate_age today [] = []
   \<and> calculate_age new_year_2024 ''17.08.2010'' = ''13''
   \<and> calculate_age new_year_2024 ''17.08.2024'' = ''-1''"
proof (intro conjI ballI allI impI)
  fix fmt bd assume "fmt \<in> set date_formats" "strptime s fmt = Some bd"
  then show "calculate_age today s =
         str_int (int (year today) - int (year bd)
                  - (if month today < month bd
                        \<or> (month today = month bd \<and> day today < day bd)
                     then 1 else 0))"
    using parse_birth_date_format [of fmt s bd] strptime_nonempty [of s fmt bd]
    by (simp add: calculate_age_def age_on_def Let_def)
next
  assume "\<forall>fmt\<in>set date_formats. strptime s fmt = None"
  then show "calculate_age today s = []"
    using parse_birth_date_none [of date_formats s None] by (simp add: calculate_age_def)
next
  show "calculate_age today [] = []" by (simp add: calculate_age_def)
  show "calculate_age new_year_2024 ''17.08.2010'' = ''13''" by code_simp
  show "calculate_age new_year_2024 ''17.08.2024'' = ''-1''" by code_simp
qed

theorem age_rule_witness:
  "DMY (CHR ''.'') Y4 \<in> set date_formats
   \<and> strptime ''17.08.2010'' (DMY (CHR ''.'') Y4) = Some \<lparr>year = 2010, month = 8, day = 17\<rparr>
   \<and> calculate_age new_year_2024 ''17.08.2010'' = str_int (2024 - 2010 - 1)
   \<and> list_all (\<lambda>fmt. strptime ''abc'' fmt = None) date_formats
   \<and> calculate_age new_year_2024 ''abc'' = []"
proof -
  have m: "DMY (CHR ''.'') Y4 \<in> set date_formats" by (simp add: date_formats_def)
  have n: "list_all (\<lambda>fmt. strptime ''abc'' fmt = None) date_formats" by code_simp
  then have n': "\<forall>fmt\<in>set date_formats. strptime ''abc'' fmt = None"
    by (simp add: list_all_iff)
  show ?thesis
    using m n n' dotted_examples(1) age_rule [of "''17.08.2010''" new_year_2024]
      age_rule [of "''abc''" new_year_2024]
    by (auto simp: new_year_2024_def)
qed








section \<open>Properties of the measurement window\<close>

lemma scan_never_same_column:
  "fst (scan_header_cells r 0 (None, None)) = snd (scan_header_cells r 0 (None, None))
   \<Longrightarrow> fst (scan_header_cells r 0 (None, None)) = None"
proof (rule ccontr)
  assume e: "fst (scan_header_cells r 0 (None, None)) = snd (scan_header_cells r 0 (None, None))"
    and n: "fst (scan_header_cells r 0 (None, None)) \<noteq> None"
  then obtain i where i: "fst (scan_header_cells r 0 (None, None)) = Some i"
    "snd (scan_header_cells r 0 (None, None)) = Some i" by auto
  then have "first_at od_marker r i" "first_at os_marker r i"
    by (simp_all add: scan_header_cells_eq first_index_from_iff)
  then have "od_marker (r ! i)" "os_marker (r ! i)" by (simp_all add: first_at_def)
  then show False by (simp add: od_marker_def os_marker_def)
qed

text \<open>The search for separate columns and the position heuristic are never entered:
  the scan of the header cells cannot set both columns to the same index.\<close>

lemma resolve_columns_scan: "resolve_columns t row_idx r = scan_header_cells r 0 (None, None)"
  using scan_never_same_column [of r] by (auto simp: resolve_columns_def Let_def)

lemma default_os_col_4: "default_os_col t h = 4"
  by (simp add: default_os_col_def)

lemma find_header_from_eq:
  "find_header_from t n rows =
     (case first_index_from is_header n rows of
        None \<Rightarrow> None
      | Some h \<Rightarrow> Some (h, scan_header_cells (rows ! (h - n)) 0 (None, None)))"
proof (induction rows arbitrary: n)
  case Nil
  then show ?case by simp
next
  case (Cons r rows)
  have step: "find_header_from t n (r # rows) =
     (if is_header r then Some (n, scan_header_cells r 0 (None, None))
      else find_header_from t (Suc n) rows)"
    by (simp add: is_header_def resolve_columns_scan)
  show ?case
  proof (cases "is_header r")
    case True
    then show ?thesis unfolding step by simp
  next
    case False
    show ?thesis
    proof (cases "first_index_from is_header (Suc n) rows")
      case None
      with False show ?thesis unfolding step Cons.IH [of "Suc n"] by simp
    next
      case (Some h)
      then have "Suc n \<le> h" by (auto simp: first_index_from_iff)
      then have "(r # rows) ! (h - n) = rows ! (h - Suc n)"
        by (metis Suc_diff_le diff_Suc_Suc nth_Cons_Suc)
      with False Some show ?thesis unfolding step Cons.IH [of "Suc n"] by simp
    qed
  qed
qed

lemma first_at_take: "first_at P xs i \<Longrightarrow> i < m \<Longrightarrow> first_at P (take m xs) i"
  by (auto simp: first_at_def)

lemma find_header_first_at:
  "(find_header t = Some (h, cs)) =
     (first_at is_header t h \<and> cs = scan_header_cells (t ! h) 0 (None, None))"
proof -
  have "(find_header t = Some (h, cs)) =
          (first_index_from is_header 0 t = Some h
           \<and> cs = scan_header_cells (t ! h) 0 (None, None))"
    by (cases "first_index_from is_header 0 t")
       (auto simp: find_header_def find_header_from_eq)
  then show ?thesis by (simp add: first_index_from_iff)
qed

lemma find_header_take:
  "find_header t = Some (h, cs) \<Longrightarrow> h < m \<Longrightarrow> find_header (take m t) = Some (h, cs)"
  using first_at_take [of is_header t h m] by (simp add: find_header_first_at)

lemma measurement_rows_eq: "measurement_rows t h = take 19 (drop (Suc h) t)"
proof (cases "h + 20 \<le> length t")
  case True
  then show ?thesis by (simp add: measurement_rows_def rows_between_def min_def)
next
  case False
  then have "length (drop (Suc h) t) \<le> 19" by simp
  then have "take 19 (drop (Suc h) t) = drop (Suc h) t" by simp
  with False show ?thesis by (simp add: measurement_rows_def rows_between_def min_def)
qed

lemma measurement_rows_take: "measurement_rows (take (h + 20) t) h = measurement_rows t h"
  by (simp add: measurement_rows_eq drop_take)

lemma late_table_examples:
  "find_header (late_table 19) = Some (0, (Some 0, None))"
  "late_table 19 ! 20 = [Some ''AL: 23.50mm'']"
  "table_accumulators [late_table 19] = ([], [])"
  "table_accumulators [late_table 18] = ([(AL, ''23.50'')], [])"
  by code_simp+

text \<open>
  C9, as the code has it. The header-based pass reads the rows strictly after the
  header row and before the row 20 below it: the next 19 rows, every one of them, in
  order. Rows 20 or more below the header have no part in what that pass writes.
\<close>

theorem measurement_window:
  "measurement_rows t h = take 19 (drop (Suc h) t)
   \<and> (find_header t = Some (h, cs) \<longrightarrow>
        extract_structured t a =
          foldl (extract_row (case fst cs of None \<Rightarrow> 0 | Some c \<Rightarrow> c)
                             (case snd cs of None \<Rightarrow> 4 | Some c \<Rightarrow> c))
            a (take 19 (drop (Suc h) t))
      \<and> extract_structured (take (h + 20) t) a = extract_structured t a)"
proof (intro conjI impI)
  show "measurement_rows t h = take 19 (drop (Suc h) t)" by (rule measurement_rows_eq)
next
  assume f: "find_header t = Some (h, cs)"
  then show "extract_structured t a =
          foldl (extract_row (case fst cs of None \<Rightarrow> 0 | Some c \<Rightarrow> c)
                             (case snd cs of None \<Rightarrow> 4 | Some c \<Rightarrow> c))
            a (take 19 (drop (Suc h) t))"
    by (simp add: extract_structured_def Let_def default_os_col_4 measurement_rows_eq
        cong: option.case_cong)
  from f have "find_header (take (h + 20) t) = Some (h, cs)" by (rule find_header_take) simp
  with f show "extract_structured (take (h + 20) t) a = extract_structured t a"
    using measurement_rows_take [of h t]
    by (simp add: extract_structured_def Let_def default_os_col_4 cong: option.case_cong)
qed

theorem measurement_window_witness:
  "find_header (late_table 19) = Some (0, (Some 0, None))
   \<and> extract_structured (take (0 + 20) (late_table 19)) ([], [])
       = extract_structured (late_table 19) ([], [])
   \<and> extract_structured (late_table 19) ([], [])
       = foldl (extract_row 0 4) ([], []) (take 19 (drop (Suc 0) (late_table 19)))"
  using late_table_examples(1)
    measurement_window [of "late_table 19" 0 "(Some 0, None)" "([], [])"]
  by simp

theorem measurement_window_counterexample:
  "find_header (late_table 19) = Some (0, (Some 0, None))
   \<and> late_table 19 ! (0 + 20) = [Some ''AL: 23.50mm'']
   \<and> table_accumulators [late_table 19] = ([], [])
   \<and> table_accumulators [late_table 18] = ([(AL, ''23.50'')], [])"
  using late_table_examples by simp

section \<open>Properties of the merge\<close>

text \<open>Within one call the filter accepts a key once, and never a key of the sheet.\<close>

lemma filter_rows_keys:
  "r \<in> set (filter_rows keys rows) \<Longrightarrow>
     row_key r \<notin> set keys \<and> fst (row_key r) \<noteq> [] \<and> snd (row_key r) \<noteq> []"
proof (induction rows arbitrary: keys)
  case Nil
  then show ?case by simp
next
  case (Cons x rows)
  show ?case
  proof (cases "fst (row_key x) \<noteq> [] \<and> snd (row_key x) \<noteq> [] \<and> row_key x \<notin> set keys")
    case True
    with Cons.prems have "r = x \<or> r \<in> set (filter_rows (row_key x # keys) rows)" by simp
    then show ?thesis
    proof
      assume "r = x"
      with True show ?thesis by simp
    next
      assume "r \<in> set (filter_rows (row_key x # keys) rows)"
      then show ?thesis using Cons.IH [of "row_key x # keys"] by simp
    qed
  next
    case False
    with Cons.prems have "r \<in> set (filter_rows keys rows)" by auto
    then show ?thesis using Cons.IH by blast
  qed
qed

lemma filter_rows_distinct: "distinct (map row_key (filter_rows keys rows))"
proof (induction rows arbitrary: keys)
  case Nil
  then show ?case by simp
next
  case (Cons x rows)
  show ?case
  proof (cases "fst (row_key x) \<noteq> [] \<and> snd (row_key x) \<noteq> [] \<and> row_key x \<notin> set keys")
    case True
    have "row_key x \<notin> row_key ` set (filter_rows (row_key x # keys) rows)"
    proof
      assume "row_key x \<in> row_key ` set (filter_rows (row_key x # keys) rows)"
      then obtain r where r: "r \<in> set (filter_rows (row_key x # keys) rows)"
        "row_key r = row_key x" by auto
      from filter_rows_keys [OF r(1)] have "row_key r \<notin> set (row_key x # keys)" by blast
      with r(2) show False by simp
    qed
    with True show ?thesis using Cons.IH [of "row_key x # keys"] by simp
  next
    case False
    then show ?thesis using Cons.IH [of keys] by auto
  qed
qed

text \<open>
  C10. The sheet has its header in row 2, \<open>ID Patient\<close> in column 1 and the eye side in
  column 2, and no data row. Merging the record of patient \<open>007\<close>, right eye, adds one
  row, whose identifier cell holds the integer 7. Merging the same record into the
  result adds a second row: the key read back from the sheet is \<open>("7", "OD")\<close>, the key
  of the incoming record is \<open>("007", "OD")\<close>. The same two merges for patient \<open>42\<close> add
  one row, and so does one merge of the record of patient \<open>007\<close> given twice.
\<close>

theorem merge_twice_adds_two_rows:
  "data_keys (merge_sheet header_only_sheet [patient_007]) = [(''7'', ''OD'')]
   \<and> row_key patient_007 = (''007'', ''OD'')
   \<and> data_keys (merge_sheet (merge_sheet header_only_sheet [patient_007]) [patient_007])
       = [(''7'', ''OD''), (''7'', ''OD'')]
   \<and> data_keys (merge_sheet (merge_sheet header_only_sheet [patient_42]) [patient_42])
       = [(''42'', ''OD'')]
   \<and> data_keys (merge_sheet header_only_sheet [patient_007, patient_007]) = [(''7'', ''OD'')]"
proof -
  have "data_keys (merge_sheet header_only_sheet [patient_007]) = [(''7'', ''OD'')]"
    by code_simp
  moreover have "row_key patient_007 = (''007'', ''OD'')"
    by code_simp
  moreover have
    "data_keys (merge_sheet (merge_sheet header_only_sheet [patient_007]) [patient_007])
       = [(''7'', ''OD''), (''7'', ''OD'')]"
    by code_simp
  moreover have
    "data_keys (merge_sheet (merge_sheet header_only_sheet [patient_42]) [patient_42])
       = [(''42'', ''OD'')]"
    by code_simp
  moreover have
    "data_keys (merge_sheet header_only_sheet [patient_007, patient_007]) = [(''7'', ''OD'')]"
    by code_simp
  ultimately show ?thesis by simp
qed

end
